theory Spec2Isabelle
  imports
    Complex_Main
    "HOL-Library.Char_ord"
    "HOL-Library.List_Lexorder"
    "HOL-Library.AList"
begin

section \<open>Numbers of the portfolio tracker\<close>

text \<open>
  The tracker (\<^verbatim>\<open>backend.py\<close>, class \<^verbatim>\<open>FinancialPortfolioTracker\<close>) reads the columns
  \<^verbatim>\<open>shares\<close> and \<^verbatim>\<open>cost_basis\<close> as \<^verbatim>\<open>decimal.Decimal\<close> objects (the operand
  \<^verbatim>\<open>Decimal('1.10')\<close> of line 168 only multiplies with a \<^verbatim>\<open>Decimal\<close> or an integer) and
  hands \<^verbatim>\<open>float(...)\<close> of the aggregates to its callers. A \<^verbatim>\<open>Decimal\<close> and a float
  are both modelled by the rational number they denote; what distinguishes them is the
  rounding of their operations:
  \<^item> the result of \<^verbatim>\<open>+\<close>, \<^verbatim>\<open>-\<close>, \<^verbatim>\<open>*\<close> on \<^verbatim>\<open>Decimal\<close> is the exact result rounded
    to the 28 significant digits of Python's default context, ties to even;
  \<^item> \<^verbatim>\<open>float(d)\<close> is the binary64 number nearest to \<^verbatim>\<open>d\<close>, ties to even, with 53
    significant bits, subnormals down to \<open>2\<^sup>-\<^sup>1\<^sup>0\<^sup>7\<^sup>4\<close>, and infinity when the rounded number reaches
    \<open>2\<^sup>1\<^sup>0\<^sup>2\<^sup>4\<close>.
  The exponent limits of the decimal context (\<open>\<plusminus>999999\<close>) are out of reach of the
  numbers a \<^verbatim>\<open>NUMERIC\<close> column holds and are left out.
\<close>

definition round_half_even :: "rat \<Rightarrow> int" where
  "round_half_even y =
     (let f = \<lfloor>y\<rfloor>; d = y - of_int f
      in if d < 1 / 2 then f else if 1 / 2 < d then f + 1 else if even f then f else f + 1)"

text \<open>\<open>ndigits b n\<close> is the number of digits of \<open>n\<close> in base \<open>b\<close>.\<close>

function ndigits :: "int \<Rightarrow> int \<Rightarrow> int" where
  "ndigits b n = (if b \<le> 1 \<or> n \<le> 0 then 0 else 1 + ndigits b (n div b))"
  by pat_completeness auto
termination
  by (relation "measure (\<lambda>(b, n). nat n)") (auto intro: int_div_less_self)

declare ndigits.simps [simp del]

text \<open>
  \<open>ilog b x\<close> is the exponent of the leading digit of \<open>x \<noteq> 0\<close> in base \<open>b\<close>, that is
  \<open>\<lfloor>log\<^bsub>b\<^esub> \<bar>x\<bar>\<rfloor>\<close>: the digit counts of numerator and denominator fix it up to one.
\<close>

definition ilog :: "int \<Rightarrow> rat \<Rightarrow> int" where
  "ilog b x =
     (let (p, q) = quotient_of \<bar>x\<bar>;
          k = ndigits b p - ndigits b q
      in if of_int b powi k \<le> \<bar>x\<bar> then k else k - 1)"

text \<open>
  Rounding to \<open>prec\<close> significant digits in base \<open>b\<close>, ties to even, the exponent of the
  last kept digit never below \<open>emin\<close>.
\<close>

definition round_sig :: "int \<Rightarrow> int \<Rightarrow> int \<Rightarrow> rat \<Rightarrow> rat" where
  "round_sig b prec emin x =
     (if x = 0 then 0
      else let e = max (ilog b x - (prec - 1)) emin;
               n = round_half_even (\<bar>x\<bar> / of_int b powi e)
           in sgn x * of_int n * of_int b powi e)"

subsection \<open>\<^verbatim>\<open>decimal.Decimal\<close> under the default context\<close>

type_synonym Decimal = rat

definition context_round :: "Decimal \<Rightarrow> Decimal" where
  "context_round x = round_sig 10 28 (- 999999 - 27) x"

definition dec_mul :: "Decimal \<Rightarrow> Decimal \<Rightarrow> Decimal" where
  "dec_mul a b = context_round (a * b)"

definition dec_add :: "Decimal \<Rightarrow> Decimal \<Rightarrow> Decimal" where
  "dec_add a b = context_round (a + b)"

definition dec_sub :: "Decimal \<Rightarrow> Decimal \<Rightarrow> Decimal" where
  "dec_sub a b = context_round (a - b)"

text \<open>
  \<^verbatim>\<open>Series.sum()\<close> of a column of objects adds the entries from the first on with
  their own \<^verbatim>\<open>+\<close> (the reduction of an object array starts from its first element),
  and is the integer 0 on an empty column.
\<close>

definition series_sum :: "Decimal list \<Rightarrow> Decimal" where
  "series_sum xs = (case xs of [] \<Rightarrow> 0 | y # ys \<Rightarrow> foldl dec_add y ys)"

subsection \<open>Python floats\<close>

datatype pyfloat = Float rat | PosInf | NegInf | NaN

definition float_of_Decimal :: "Decimal \<Rightarrow> pyfloat" where
  "float_of_Decimal x =
     (let y = round_sig 2 53 (- 1074) x
      in if 1024 \<le> ilog 2 y then (if 0 < y then PosInf else NegInf) else Float y)"

text \<open>Division of a float by a positive count (\<^verbatim>\<open>the_sum / count\<close> of a mean).\<close>

definition float_div_count :: "pyfloat \<Rightarrow> nat \<Rightarrow> pyfloat" where
  "float_div_count x n =
     (case x of Float y \<Rightarrow> float_of_Decimal (y / of_nat n) | PosInf \<Rightarrow> PosInf
      | NegInf \<Rightarrow> NegInf | NaN \<Rightarrow> NaN)"

text \<open>
  Addition of floats: the exact sum of two finite floats, rounded; an infinity absorbs
  what is added to it, and the two infinities add up to no number.
\<close>

fun float_add :: "pyfloat \<Rightarrow> pyfloat \<Rightarrow> pyfloat" where
  "float_add (Float x) (Float y) = float_of_Decimal (x + y)"
| "float_add NaN y = NaN"
| "float_add x NaN = NaN"
| "float_add PosInf NegInf = NaN"
| "float_add NegInf PosInf = NaN"
| "float_add PosInf y = PosInf"
| "float_add x PosInf = PosInf"
| "float_add NegInf y = NegInf"
| "float_add x NegInf = NegInf"

text \<open>The values a result dictionary of the tracker holds.\<close>

datatype pyval = PyInt int | PyDecimal Decimal | PyFloat pyfloat

type_synonym pydict = "(string \<times> pyval) list"

section \<open>The relational store\<close>

record pydate =
  year :: int
  month :: nat
  day :: nat

text \<open>
  \<^verbatim>\<open>datetime.datetime\<close> is a subclass of \<^verbatim>\<open>datetime.date\<close>: it has the year, the month and
  the day of a date and the time of day.
\<close>

record pydatetime = pydate +
  hour :: nat
  minute :: nat
  second :: nat
  microsecond :: nat

text \<open>
  \<^verbatim>\<open>datetime.date()\<close>: the date with the year, the month and the day of the timestamp.
\<close>

definition date :: "pydatetime \<Rightarrow> pydate" where
  "date dt = \<lparr>year = year dt, month = month dt, day = day dt\<rparr>"

text \<open>
  A row of \<^verbatim>\<open>assets\<close> and a row of \<^verbatim>\<open>transactions\<close>, with the columns the
  \<^verbatim>\<open>INSERT\<close> statements of \<^verbatim>\<open>create_asset\<close> and \<^verbatim>\<open>add_transaction\<close> list.
  \<^verbatim>\<open>notes\<close> defaults to \<^verbatim>\<open>None\<close>, stored as \<^verbatim>\<open>NULL\<close>.
\<close>

record asset =
  ticker :: string
  purchase_date :: pydate
  shares :: Decimal
  cost_basis :: Decimal
  asset_class :: string

record txn =
  txn_ticker :: string
  transaction_date :: pydate
  transaction_type :: string
  amount :: Decimal
  txn_notes :: "string option"

record database =
  assets :: "asset list"
  transactions :: "txn list"

text \<open>
  Modelled from the spec: the declarations of the two tables are not part of the
  repository (section 6: the schema is assumed to exist). Section 6 gives
  \<^verbatim>\<open>assets(ticker PRIMARY KEY/UNIQUE, ...)\<close> and
  \<^verbatim>\<open>transactions(ticker REFERENCES assets, ...)\<close> with cascading delete. What the
  reference does when a referenced ticker is updated is not declared there; it is the
  parameter \<open>fk_action\<close> of the statements below: \<open>NoAction\<close> is the relational engine's
  behaviour for a reference declared without an update rule (the statement is refused
  while rows refer to the old key), \<open>Cascade\<close> rewrites the referring rows. A rule that
  detaches the referring rows (setting their ticker to \<^verbatim>\<open>NULL\<close> or to a default) is
  excluded by section 3, which has a rename keep the transactions of the asset.
\<close>

datatype fk_action = NoAction | Cascade

text \<open>
  The subclasses of \<^verbatim>\<open>psycopg2.Error\<close> that matter: three errors the engine reports for a
  statement, any other error it reports, the \<^verbatim>\<open>OperationalError\<close> of a connection that
  breaks during a call (\<open>ConnectionLost\<close>), and the \<^verbatim>\<open>InterfaceError\<close> that every call on a
  closed or broken connection raises (\<open>ConnectionAlreadyClosed\<close>).
\<close>

datatype db_error =
    UniqueViolation
  | ForeignKeyViolation
  | InFailedSqlTransaction
  | OtherDatabaseError
  | ConnectionLost
  | ConnectionAlreadyClosed

text \<open>What a Python call does: it returns a value or raises an exception.\<close>

datatype 'a outcome = Returns 'a | Raises db_error

definition tickers :: "database \<Rightarrow> string list" where
  "tickers d = map ticker (assets d)"

subsection \<open>The five statements that write or read rows\<close>

text \<open>
  Each statement maps the tables to an error or to the tables after it. A statement that
  fails changes nothing.

  \<^verbatim>\<open>INSERT INTO assets (...) VALUES (...) ON CONFLICT (ticker) DO NOTHING\<close>
\<close>

definition insert_asset :: "asset \<Rightarrow> database \<Rightarrow> db_error + database" where
  "insert_asset row d =
     (if ticker row \<in> set (tickers d) then Inr d
      else Inr (d\<lparr>assets := assets d @ [row]\<rparr>))"

text \<open>
  \<^verbatim>\<open>UPDATE assets SET ticker = .., purchase_date = .., shares = .., cost_basis = ..,
  asset_class = .. WHERE ticker = ..\<close>: every column of the matching rows is overwritten.
  Without a matching row nothing happens. Otherwise the primary key is checked on the
  table after the update, and the reference of \<^verbatim>\<open>transactions\<close> when the ticker
  has changed.
\<close>

definition update_assets :: "fk_action \<Rightarrow> string \<Rightarrow> asset \<Rightarrow> database \<Rightarrow> db_error + database" where
  "update_assets on_update original_ticker row d =
     (let assets' = map (\<lambda>r. if ticker r = original_ticker then row else r) (assets d) in
      if original_ticker \<notin> set (tickers d) then Inr d
      else if \<not> distinct (map ticker assets') then Inl UniqueViolation
      else if ticker row \<noteq> original_ticker
              \<and> original_ticker \<in> set (map txn_ticker (transactions d))
      then (case on_update of
              NoAction \<Rightarrow> Inl ForeignKeyViolation
            | Cascade \<Rightarrow>
                Inr (d\<lparr>assets := assets',
                       transactions :=
                         map (\<lambda>t. if txn_ticker t = original_ticker
                                   then t\<lparr>txn_ticker := ticker row\<rparr> else t)
                             (transactions d)\<rparr>))
      else Inr (d\<lparr>assets := assets'\<rparr>))"

text \<open>
  \<^verbatim>\<open>DELETE FROM assets WHERE ticker = ..\<close>; the transactions of a deleted asset go
  with it (cascading delete).
\<close>

definition delete_assets :: "string \<Rightarrow> database \<Rightarrow> db_error + database" where
  "delete_assets t d =
     (if t \<in> set (tickers d)
      then Inr (d\<lparr>assets := filter (\<lambda>r. ticker r \<noteq> t) (assets d),
                  transactions := filter (\<lambda>x. txn_ticker x \<noteq> t) (transactions d)\<rparr>)
      else Inr d)"

text \<open>
  \<^verbatim>\<open>INSERT INTO transactions (ticker, transaction_date, transaction_type, amount, notes)
  VALUES (...)\<close>: the ticker has to refer to an asset.
\<close>

definition insert_transaction :: "txn \<Rightarrow> database \<Rightarrow> db_error + database" where
  "insert_transaction row d =
     (if txn_ticker row \<in> set (tickers d)
      then Inr (d\<lparr>transactions := transactions d @ [row]\<rparr>)
      else Inl ForeignKeyViolation)"

section \<open>The connection\<close>

text \<open>
  \<^verbatim>\<open>self.conn\<close> and \<^verbatim>\<open>self.cursor\<close>: the tables as committed, the tables as the open
  transaction of the connection sees them, whether that transaction has been aborted
  by an error (the engine then refuses every statement until the transaction is rolled
  back), and whether the connection is closed or broken (\<^verbatim>\<open>conn.closed\<close> is not 0: every
  call on it, \<^verbatim>\<open>rollback\<close> included, then raises).
\<close>

record connection =
  committed :: database
  working :: database
  aborted :: bool
  closed :: bool

text \<open>
  What happens to the connection when a call on it raises \<open>e\<close>: an error of the connection
  leaves it broken, an error that the engine reports aborts the open transaction.
\<close>

definition connection_error :: "db_error \<Rightarrow> bool" where
  "connection_error e \<longleftrightarrow> e = ConnectionLost \<or> e = ConnectionAlreadyClosed"

definition after_error :: "db_error \<Rightarrow> connection \<Rightarrow> connection" where
  "after_error e c = (if connection_error e then c\<lparr>closed := True\<rparr> else c\<lparr>aborted := True\<rparr>)"

text \<open>
  \<^verbatim>\<open>self.cursor.execute(...)\<close> for a statement that writes. \<open>fault\<close> is what goes wrong for a
  reason outside the rows of the two tables: an error that the engine reports (a value
  that does not fit the declared column, a lock, a resource limit) or the loss of the
  connection; \<open>None\<close> when nothing does. \<open>Inl\<close> is the \<^verbatim>\<open>psycopg2.Error\<close> raised.
\<close>

definition execute ::
  "db_error option \<Rightarrow> (database \<Rightarrow> db_error + database) \<Rightarrow> connection
     \<Rightarrow> (db_error + unit) \<times> connection" where
  "execute fault stmt c =
     (if closed c then (Inl ConnectionAlreadyClosed, c)
      else if aborted c then (Inl InFailedSqlTransaction, c)
      else case fault of
             Some e \<Rightarrow> (Inl e, after_error e c)
           | None \<Rightarrow>
               (case stmt (working c) of
                  Inl e \<Rightarrow> (Inl e, c\<lparr>aborted := True\<rparr>)
                | Inr d \<Rightarrow> (Inr (), c\<lparr>working := d\<rparr>)))"

text \<open>\<^verbatim>\<open>self.cursor.execute(...)\<close> followed by a fetch, for a \<^verbatim>\<open>SELECT\<close>.\<close>

definition execute_query ::
  "db_error option \<Rightarrow> (database \<Rightarrow> 'a) \<Rightarrow> connection \<Rightarrow> (db_error + 'a) \<times> connection" where
  "execute_query fault query c =
     (if closed c then (Inl ConnectionAlreadyClosed, c)
      else if aborted c then (Inl InFailedSqlTransaction, c)
      else case fault of
             Some e \<Rightarrow> (Inl e, after_error e c)
           | None \<Rightarrow> (Inr (query (working c)), c))"

text \<open>
  \<^verbatim>\<open>self.conn.commit()\<close> and \<^verbatim>\<open>self.conn.rollback()\<close>: both raise on a closed or broken
  connection.
\<close>

definition commit :: "connection \<Rightarrow> db_error + connection" where
  "commit c = (if closed c then Inl ConnectionAlreadyClosed else Inr (c\<lparr>committed := working c\<rparr>))"

definition rollback :: "connection \<Rightarrow> db_error + connection" where
  "rollback c =
     (if closed c then Inl ConnectionAlreadyClosed
      else Inr (c\<lparr>working := committed c, aborted := False\<rparr>))"

text \<open>
  The handler of the four writing operations, \<^verbatim>\<open>except psycopg2.Error\<close>: it calls
  \<^verbatim>\<open>self.conn.rollback()\<close>, prints and returns \<open>False\<close>. The call of \<^verbatim>\<open>rollback\<close> is not
  guarded: what it raises leaves the method.
\<close>

definition except_handler :: "connection \<Rightarrow> bool outcome \<times> connection" where
  "except_handler c =
     (case rollback c of
        Inr c' \<Rightarrow> (Returns False, c')
      | Inl e \<Rightarrow> (Raises e, c))"

section \<open>CRUD operations\<close>

text \<open>
  Every operation takes the connection and returns its outcome with the connection
  after it. The \<^verbatim>\<open>try\<close> block is \<^verbatim>\<open>execute\<close>, \<^verbatim>\<open>commit\<close> and \<^verbatim>\<open>return True\<close>; an error
  of either call goes to the handler. The messages printed are left out.
\<close>

definition create_asset ::
  "db_error option \<Rightarrow> connection \<Rightarrow> string \<Rightarrow> pydate \<Rightarrow> Decimal \<Rightarrow> Decimal \<Rightarrow> string
     \<Rightarrow> bool outcome \<times> connection" where
  "create_asset fault c ticker' purchase_date' shares' cost_basis' asset_class' =
     (case execute fault
             (insert_asset \<lparr>ticker = ticker', purchase_date = purchase_date', shares = shares',
                             cost_basis = cost_basis', asset_class = asset_class'\<rparr>) c of
        (Inr _, c') \<Rightarrow>
          (case commit c' of
             Inr c'' \<Rightarrow> (Returns True, c'')
           | Inl e \<Rightarrow> except_handler c')
      | (Inl e, c') \<Rightarrow> except_handler c')"

text \<open>
  \<^verbatim>\<open>SELECT * FROM assets ORDER BY ticker\<close>, the rows of the data frame returned; the
  empty frame on an error. Strings are ordered byte by byte.
\<close>

definition read_all_assets :: "db_error option \<Rightarrow> connection \<Rightarrow> asset list \<times> connection" where
  "read_all_assets fault c =
     (case execute_query fault (\<lambda>d. sort_key ticker (assets d)) c of
        (Inr rows, c') \<Rightarrow> (rows, c')
      | (Inl e, c') \<Rightarrow> ([], c'))"

definition update_asset ::
  "fk_action \<Rightarrow> db_error option \<Rightarrow> connection \<Rightarrow> string \<Rightarrow> string \<Rightarrow> pydate \<Rightarrow> Decimal \<Rightarrow> Decimal
     \<Rightarrow> string \<Rightarrow> bool outcome \<times> connection" where
  "update_asset on_update fault c original_ticker new_ticker purchase_date' shares' cost_basis'
       asset_class' =
     (case execute fault
             (update_assets on_update original_ticker
                \<lparr>ticker = new_ticker, purchase_date = purchase_date', shares = shares',
                 cost_basis = cost_basis', asset_class = asset_class'\<rparr>) c of
        (Inr _, c') \<Rightarrow>
          (case commit c' of
             Inr c'' \<Rightarrow> (Returns True, c'')
           | Inl e \<Rightarrow> except_handler c')
      | (Inl e, c') \<Rightarrow> except_handler c')"

definition delete_asset ::
  "db_error option \<Rightarrow> connection \<Rightarrow> string \<Rightarrow> bool outcome \<times> connection" where
  "delete_asset fault c ticker' =
     (case execute fault (delete_assets ticker') c of
        (Inr _, c') \<Rightarrow>
          (case commit c' of
             Inr c'' \<Rightarrow> (Returns True, c'')
           | Inl e \<Rightarrow> except_handler c')
      | (Inl e, c') \<Rightarrow> except_handler c')"

text \<open>
  \<open>now\<close> is what \<^verbatim>\<open>datetime.now()\<close> returns during the call: the reading of the clock of
  the process that runs the tracker. The parameters of the method are the four after the
  connection: the ticker, the type, the amount and the notes.
\<close>

definition add_transaction ::
  "pydatetime \<Rightarrow> db_error option \<Rightarrow> connection \<Rightarrow> string \<Rightarrow> string \<Rightarrow> Decimal \<Rightarrow> string option
     \<Rightarrow> bool outcome \<times> connection" where
  "add_transaction now fault c ticker' transaction_type' amount' notes' =
     (case execute fault
             (insert_transaction \<lparr>txn_ticker = ticker', transaction_date = date now,
                                   transaction_type = transaction_type', amount = amount',
                                   txn_notes = notes'\<rparr>) c of
        (Inr _, c') \<Rightarrow>
          (case commit c' of
             Inr c'' \<Rightarrow> (Returns True, c'')
           | Inl e \<Rightarrow> except_handler c')
      | (Inl e, c') \<Rightarrow> except_handler c')"

section \<open>Business insights\<close>

text \<open>\<^verbatim>\<open>SELECT ticker, shares, cost_basis, asset_class FROM assets\<close>\<close>

type_synonym summary_row = "string \<times> Decimal \<times> Decimal \<times> string"

definition select_summary_rows :: "database \<Rightarrow> summary_row list" where
  "select_summary_rows d = map (\<lambda>r. (ticker r, shares r, cost_basis r, asset_class r)) (assets d)"

definition col_shares :: "summary_row list \<Rightarrow> Decimal list" where
  "col_shares rows = map (\<lambda>(t, s, c, a). s) rows"

definition col_cost_basis :: "summary_row list \<Rightarrow> Decimal list" where
  "col_cost_basis rows = map (\<lambda>(t, s, c, a). c) rows"

text \<open>
  The three derived columns of lines 168 to 170: the price is the cost basis times
  \<^verbatim>\<open>Decimal('1.10')\<close>, the value is shares times price, the gain is value minus cost
  basis, row by row.
\<close>

definition col_current_price :: "summary_row list \<Rightarrow> Decimal list" where
  "col_current_price rows = map (\<lambda>x. dec_mul x (11 / 10)) (col_cost_basis rows)"

definition col_current_value :: "summary_row list \<Rightarrow> Decimal list" where
  "col_current_value rows =
     map (\<lambda>(s, p). dec_mul s p) (zip (col_shares rows) (col_current_price rows))"

definition col_gain_loss :: "summary_row list \<Rightarrow> Decimal list" where
  "col_gain_loss rows =
     map (\<lambda>(v, c). dec_sub v c) (zip (col_current_value rows) (col_cost_basis rows))"

text \<open>
  \<^verbatim>\<open>Series.mean()\<close> of a column of \<^verbatim>\<open>Decimal\<close> objects: the sum, converted to a
  float, divided by the number of entries.
\<close>

definition series_mean :: "Decimal list \<Rightarrow> pyfloat" where
  "series_mean xs = float_div_count (float_of_Decimal (series_sum xs)) (length xs)"

definition zero_summary :: pydict where
  "zero_summary =
     [(''total_assets_count'', PyInt 0),
      (''total_cost_basis'', PyInt 0),
      (''total_market_value'', PyInt 0),
      (''total_gain_loss'', PyInt 0),
      (''avg_cost_basis'', PyInt 0)]"

definition get_portfolio_summary :: "db_error option \<Rightarrow> connection \<Rightarrow> pydict \<times> connection" where
  "get_portfolio_summary fault c =
     (case execute_query fault select_summary_rows c of
        (Inr rows, c') \<Rightarrow>
          (if rows = [] then zero_summary
           else [(''total_assets_count'', PyInt (int (length rows))),
                 (''total_cost_basis'', PyDecimal (series_sum (col_cost_basis rows))),
                 (''total_market_value'', PyDecimal (series_sum (col_current_value rows))),
                 (''total_gain_loss'', PyDecimal (series_sum (col_gain_loss rows))),
                 (''avg_cost_basis'', PyFloat (series_mean (col_cost_basis rows)))],
           c')
      | (Inl e, c') \<Rightarrow> ([], c'))"

text \<open>
  \<^verbatim>\<open>SELECT asset_class, SUM(cost_basis) FROM assets GROUP BY asset_class\<close>: one row for
  each class that occurs, with the exact sum of the class (a \<^verbatim>\<open>NUMERIC\<close> sum does not
  round). The order of the groups is the engine's choice; here it is that of the last
  occurrence of each class.
\<close>

definition select_allocation :: "database \<Rightarrow> (string \<times> Decimal) list" where
  "select_allocation d =
     map (\<lambda>cl. (cl, sum_list (map cost_basis (filter (\<lambda>r. asset_class r = cl) (assets d)))))
         (remdups (map asset_class (assets d)))"

text \<open>
  The comprehension \<^verbatim>\<open>{row[0]: float(row[1]) for row in allocation}\<close>: a dictionary
  keeps one entry for a key, at the place of its first insertion, with the value written
  last.
\<close>

definition allocation_dict :: "(string \<times> Decimal) list \<Rightarrow> (string \<times> pyfloat) list" where
  "allocation_dict allocation =
     foldl (\<lambda>dict (k, v). AList.update k (float_of_Decimal v) dict) [] allocation"

definition get_asset_allocation ::
  "db_error option \<Rightarrow> connection \<Rightarrow> (string \<times> pyfloat) list \<times> connection" where
  "get_asset_allocation fault c =
     (case execute_query fault select_allocation c of
        (Inr allocation, c') \<Rightarrow> (allocation_dict allocation, c')
      | (Inl e, c') \<Rightarrow> ([], c'))"

text \<open>
  \<^verbatim>\<open>SELECT COUNT(*), SUM(cost_basis), AVG(cost_basis), MIN(shares), MAX(shares) FROM
  assets\<close>: always one row; every aggregate but the count is \<^verbatim>\<open>NULL\<close> (\<open>None\<close>) over no
  rows. The engine delivers the average rounded to a scale of its choice (at least 16
  significant digits); the quotient is kept exact here.
\<close>

type_synonym insights_row =
  "int option \<times> Decimal option \<times> Decimal option \<times> Decimal option \<times> Decimal option"

definition sql_sum :: "Decimal list \<Rightarrow> Decimal option" where
  "sql_sum xs = (if xs = [] then None else Some (sum_list xs))"

definition sql_avg :: "Decimal list \<Rightarrow> Decimal option" where
  "sql_avg xs = (if xs = [] then None else Some (sum_list xs / of_nat (length xs)))"

definition sql_min :: "Decimal list \<Rightarrow> Decimal option" where
  "sql_min xs = (case xs of [] \<Rightarrow> None | y # ys \<Rightarrow> Some (fold min ys y))"

definition sql_max :: "Decimal list \<Rightarrow> Decimal option" where
  "sql_max xs = (case xs of [] \<Rightarrow> None | y # ys \<Rightarrow> Some (fold max ys y))"

definition select_insights :: "database \<Rightarrow> insights_row option" where
  "select_insights d =
     Some (Some (int (length (assets d))),
           sql_sum (map cost_basis (assets d)),
           sql_avg (map cost_basis (assets d)),
           sql_min (map shares (assets d)),
           sql_max (map shares (assets d)))"

text \<open>\<^verbatim>\<open>float(x) if x is not None else 0.0\<close>\<close>

definition float_or_zero :: "Decimal option \<Rightarrow> pyval" where
  "float_or_zero x = (case x of Some v \<Rightarrow> PyFloat (float_of_Decimal v) | None \<Rightarrow> PyFloat (Float 0))"

definition zero_insights :: pydict where
  "zero_insights =
     [(''total_assets'', PyInt 0),
      (''total_cost_basis'', PyFloat (Float 0)),
      (''avg_cost_basis'', PyFloat (Float 0)),
      (''min_shares'', PyFloat (Float 0)),
      (''max_shares'', PyFloat (Float 0))]"

definition get_insights :: "db_error option \<Rightarrow> connection \<Rightarrow> pydict \<times> connection" where
  "get_insights fault c =
     (case execute_query fault select_insights c of
        (Inr result, c') \<Rightarrow>
          (case result of
             Some (Some n, s, a, mn, mx) \<Rightarrow>
               [(''total_assets'', PyInt n),
                (''total_cost_basis'', float_or_zero s),
                (''avg_cost_basis'', float_or_zero a),
                (''min_shares'', float_or_zero mn),
                (''max_shares'', float_or_zero mx)]
           | _ \<Rightarrow> zero_insights,
           c')
      | (Inl e, c') \<Rightarrow> ([], c'))"

section \<open>Notions used to state the properties\<close>

text \<open>
  \<^verbatim>\<open>connect()\<close>: a fresh connection to a store whose tables are \<open>d\<close>. No transaction is
  open: the working tables are the committed ones.
\<close>

definition connect :: "database \<Rightarrow> connection" where
  "connect d = \<lparr>committed = d, working = d, aborted = False, closed = False\<rparr>"

text \<open>The connection after the server has dropped it.\<close>

definition dropped :: "connection \<Rightarrow> connection" where
  "dropped c = c\<lparr>closed := True\<rparr>"

text \<open>
  A number that the decimal context leaves as it is, and a column whose running sums are
  all such numbers.
\<close>

definition unrounded :: "Decimal \<Rightarrow> bool" where
  "unrounded x \<longleftrightarrow> context_round x = x"

fun partial_sums_unrounded :: "Decimal \<Rightarrow> Decimal list \<Rightarrow> bool" where
  "partial_sums_unrounded acc [] = True"
| "partial_sums_unrounded acc (x # xs) \<longleftrightarrow>
     unrounded (acc + x) \<and> partial_sums_unrounded (acc + x) xs"

definition sum_unrounded :: "Decimal list \<Rightarrow> bool" where
  "sum_unrounded xs = (case xs of [] \<Rightarrow> True | y # ys \<Rightarrow> partial_sums_unrounded y ys)"

text \<open>
  The value and the gain of a row in exact arithmetic, for a price factor \<open>k\<close>, and the
  rows whose price, value and gain need no rounding.
\<close>

definition exact_value :: "Decimal \<Rightarrow> summary_row \<Rightarrow> Decimal" where
  "exact_value k = (\<lambda>(t, s, c, a). s * (c * k))"

definition exact_gain :: "Decimal \<Rightarrow> summary_row \<Rightarrow> Decimal" where
  "exact_gain k = (\<lambda>(t, s, c, a). s * (c * k) - c)"

definition row_unrounded :: "Decimal \<Rightarrow> summary_row \<Rightarrow> bool" where
  "row_unrounded k =
     (\<lambda>(t, s, c, a). unrounded (c * k) \<and> unrounded (s * (c * k)) \<and> unrounded (s * (c * k) - c))"

text \<open>
  No step of the summary of \<open>rows\<close> needs more than the 28 significant digits of the
  decimal context.
\<close>

definition within_precision :: "summary_row list \<Rightarrow> bool" where
  "within_precision rows \<longleftrightarrow>
     list_all (row_unrounded (11 / 10)) rows
     \<and> sum_unrounded (col_cost_basis rows)
     \<and> sum_unrounded (map (exact_value (11 / 10)) rows)
     \<and> sum_unrounded (map (exact_gain (11 / 10)) rows)"

text \<open>
  Amounts of ordinary size: fewer than \<open>10\<^sup>8\<close> shares with at most four decimal places, a
  cost basis below \<open>10\<^sup>1\<^sup>0\<close> with at most two. \<open>shares_e4\<close> and \<open>cost_e2\<close> are the two amounts
  in ten-thousandths and in hundredths.
\<close>

definition moderate_amounts :: "summary_row \<Rightarrow> bool" where
  "moderate_amounts =
     (\<lambda>(t, s, c, a). 0 \<le> s \<and> s < 10 ^ 8 \<and> s * 10 ^ 4 \<in> \<int>
                    \<and> 0 \<le> c \<and> c < 10 ^ 10 \<and> c * 10 ^ 2 \<in> \<int>)"

definition shares_e4 :: "summary_row \<Rightarrow> int" where
  "shares_e4 = (\<lambda>(t, s, c, a). \<lfloor>s * 10 ^ 4\<rfloor>)"

definition cost_e2 :: "summary_row \<Rightarrow> int" where
  "cost_e2 = (\<lambda>(t, s, c, a). \<lfloor>c * 10 ^ 2\<rfloor>)"

text \<open>A decimal number that is a binary64 number, so that \<^verbatim>\<open>float\<close> returns it unchanged.\<close>

definition representable :: "Decimal \<Rightarrow> bool" where
  "representable x \<longleftrightarrow> float_of_Decimal x = Float x"

text \<open>
  A list of decimal numbers that are binary64 numbers and whose running sums, from \<open>acc\<close>
  on and from left to right, are binary64 numbers as well: adding them as floats rounds
  nowhere.
\<close>

fun partial_sums_representable :: "Decimal \<Rightarrow> Decimal list \<Rightarrow> bool" where
  "partial_sums_representable acc [] = True"
| "partial_sums_representable acc (x # xs) \<longleftrightarrow>
     representable (acc + x) \<and> partial_sums_representable (acc + x) xs"

text \<open>The sum, in exact arithmetic, of the values of a mapping to finite floats.\<close>

fun sum_values :: "(string \<times> pyfloat) list \<Rightarrow> rat option" where
  "sum_values [] = Some 0"
| "sum_values ((k, Float x) # m) = map_option ((+) x) (sum_values m)"
| "sum_values ((k, PosInf) # m) = None"
| "sum_values ((k, NegInf) # m) = None"
| "sum_values ((k, NaN) # m) = None"

text \<open>
  The values of a mapping added as floats, one after the other from 0.0 on and in the
  order of the entries: every addition rounds.
\<close>

definition float_sum_values :: "(string \<times> pyfloat) list \<Rightarrow> pyfloat" where
  "float_sum_values m = foldl float_add (Float 0) (map snd m)"

text \<open>
  The constraints of section 6 of the specification: tickers are unique, and every
  transaction refers to an asset.
\<close>

definition integrity :: "database \<Rightarrow> bool" where
  "integrity d \<longleftrightarrow>
     distinct (tickers d) \<and> (\<forall>x \<in> set (transactions d). txn_ticker x \<in> set (tickers d))"

section \<open>Example states\<close>

definition new_year_2024 :: pydate where
  "new_year_2024 = \<lparr>year = 2024, month = 1, day = 1\<rparr>"

definition aapl :: asset where
  "aapl = \<lparr>ticker = ''AAPL'', purchase_date = new_year_2024, shares = 10, cost_basis = 1500,
            asset_class = ''Equities''\<rparr>"

definition aaplx :: asset where
  "aaplx = \<lparr>ticker = ''AAPLX'', purchase_date = new_year_2024, shares = 10, cost_basis = 1500,
             asset_class = ''Equities''\<rparr>"

definition btc :: asset where
  "btc = \<lparr>ticker = ''BTC'', purchase_date = new_year_2024, shares = 1 / 2, cost_basis = 500,
           asset_class = ''Crypto''\<rparr>"

definition only_aapl :: database where
  "only_aapl = \<lparr>assets = [aapl], transactions = []\<rparr>"

definition no_assets :: database where
  "no_assets = \<lparr>assets = [], transactions = []\<rparr>"

definition two_assets :: database where
  "two_assets = \<lparr>assets = [aapl, btc], transactions = []\<rparr>"

definition buy :: "string \<Rightarrow> txn" where
  "buy t = \<lparr>txn_ticker = t, transaction_date = new_year_2024, transaction_type = ''Buy'',
             amount = 1500, txn_notes = None\<rparr>"

definition dividend :: "string \<Rightarrow> txn" where
  "dividend t = \<lparr>txn_ticker = t, transaction_date = new_year_2024,
                  transaction_type = ''Dividend'', amount = 12, txn_notes = Some ''Q1''\<rparr>"

definition aapl_with_history :: database where
  "aapl_with_history =
     \<lparr>assets = [aapl, btc], transactions = [buy ''AAPL'', buy ''BTC'', dividend ''AAPL'']\<rparr>"

definition aaplx_with_history :: database where
  "aaplx_with_history =
     \<lparr>assets = [aaplx, btc], transactions = [buy ''AAPLX'', buy ''BTC'', dividend ''AAPLX'']\<rparr>"

text \<open>Two holdings whose cost basis has 28 digits.\<close>

definition huge :: "string \<Rightarrow> asset" where
  "huge t = \<lparr>ticker = t, purchase_date = new_year_2024, shares = 1,
              cost_basis = 5000000000000000000000000006, asset_class = ''Equities''\<rparr>"

definition two_huge_assets :: database where
  "two_huge_assets = \<lparr>assets = [huge ''A'', huge ''B''], transactions = []\<rparr>"

text \<open>Two holdings that cost 0.10 and 0.20.\<close>

definition dime :: asset where
  "dime = \<lparr>ticker = ''A'', purchase_date = new_year_2024, shares = 1, cost_basis = 1 / 10,
            asset_class = ''Equities''\<rparr>"

definition two_dimes :: asset where
  "two_dimes = \<lparr>ticker = ''B'', purchase_date = new_year_2024, shares = 1, cost_basis = 2 / 10,
                 asset_class = ''Crypto''\<rparr>"

definition small_change :: database where
  "small_change = \<lparr>assets = [dime, two_dimes], transactions = []\<rparr>"

text \<open>Three holdings in three classes that cost \<open>2\<^sup>5\<^sup>3\<close>, 1 and 1.\<close>

definition fund :: asset where
  "fund = \<lparr>ticker = ''F'', purchase_date = new_year_2024, shares = 1,
            cost_basis = 9007199254740992, asset_class = ''Funds''\<rparr>"

definition coin :: "string \<Rightarrow> string \<Rightarrow> asset" where
  "coin t cl = \<lparr>ticker = t, purchase_date = new_year_2024, shares = 1, cost_basis = 1,
                 asset_class = cl\<rparr>"

definition fund_and_coins :: database where
  "fund_and_coins =
     \<lparr>assets = [fund, coin ''G'' ''Cash'', coin ''H'' ''Crypto''], transactions = []\<rparr>"

text \<open>A reading of the clock: 3 November 2026 at noon.\<close>

definition noon :: pydatetime where
  "noon = \<lparr>year = 2026, month = 11, day = 3, hour = 12, minute = 0, second = 0,
            microsecond = 0\<rparr>"

lemmas example_defs =
  connect_def new_year_2024_def aapl_def aaplx_def btc_def only_aapl_def no_assets_def
  two_assets_def buy_def dividend_def aapl_with_history_def aaplx_with_history_def huge_def
  two_huge_assets_def dime_def two_dimes_def small_change_def fund_def coin_def
  fund_and_coins_def noon_def

section \<open>Numbers that rounding leaves unchanged\<close>

text \<open>
  The digit count brackets a positive integer between two powers of the base, and \<open>ilog\<close>
  a rational number other than 0. A number with at most \<open>prec\<close> significant digits and an
  exponent in range is its own rounding: 28 decimal digits for a \<^verbatim>\<open>Decimal\<close>, 53 bits
  for a float.
\<close>

lemma round_half_even_of_int [simp]: "round_half_even (of_int n) = n"
  by (simp add: round_half_even_def)

lemma small_div: "1 < b \<Longrightarrow> 0 < n \<Longrightarrow> n div b = 0 \<Longrightarrow> n < (b::int)"
  by (simp add: zdiv_eq_0_iff)

lemma pow_step: "1 \<le> k \<Longrightarrow> (b::int) * b ^ nat (k - 1) = b ^ nat k"
proof -
  assume "1 \<le> k"
  then have "nat k = Suc (nat (k - 1))" by simp
  then show ?thesis by simp
qed

lemma below_next_multiple: "0 < (b::int) \<Longrightarrow> n < b * (n div b + 1)"
proof -
  assume b: "0 < b"
  have "n = b * (n div b) + n mod b" by simp
  moreover have "n mod b < b" using b by simp
  ultimately have "n < b * (n div b) + b" by linarith
  then show ?thesis by (simp add: distrib_left)
qed

lemma multiple_below: "0 < (b::int) \<Longrightarrow> b * (n div b) \<le> n"
proof -
  assume b: "0 < b"
  have "n = b * (n div b) + n mod b" by simp
  moreover have "0 \<le> n mod b" using b by simp
  ultimately show ?thesis by linarith
qed

lemma ndigits_bounds:
  "1 < b \<Longrightarrow> 0 < n \<Longrightarrow> 1 \<le> ndigits b n \<and> b ^ nat (ndigits b n - 1) \<le> n \<and> n < b ^ nat (ndigits b n)"
proof (induction b n rule: ndigits.induct)
  case (1 b n)
  have nd: "ndigits b n = 1 + ndigits b (n div b)"
    using 1(2,3) by (subst ndigits.simps) simp
  show ?case
  proof (cases "n div b = 0")
    case True
    with 1(2,3) have "n < b" by (simp add: small_div)
    moreover have "ndigits b (n div b) = 0"
      using True by (subst ndigits.simps) simp
    ultimately show ?thesis using nd 1(3) by simp
  next
    case False
    have "0 \<le> n div b" using 1(2,3) by (simp add: pos_imp_zdiv_nonneg_iff)
    with False have pos: "0 < n div b" by simp
    let ?k = "ndigits b (n div b)"
    have "\<not> (b \<le> 1 \<or> n \<le> 0)" using 1(2,3) by simp
    from 1(1) [OF this 1(2) pos] have IH: "1 \<le> ?k" "b ^ nat (?k - 1) \<le> n div b" "n div b < b ^ nat ?k"
      by blast+
    have "b * (n div b) \<le> n" using 1(2) by (simp add: multiple_below)
    moreover have "b * b ^ nat (?k - 1) \<le> b * (n div b)" using IH(2) 1(2) by simp
    ultimately have lo: "b ^ nat ?k \<le> n" using pow_step [OF IH(1), of b] by simp
    have "n < b * (n div b + 1)" using 1(2) by (simp add: below_next_multiple)
    moreover have "b * (n div b + 1) \<le> b * b ^ nat ?k" using IH(3) 1(2) by simp
    moreover have "b * b ^ nat ?k = b ^ nat (1 + ?k)" using pow_step [of "1 + ?k" b] IH(1) by simp
    ultimately have hi: "n < b ^ nat (1 + ?k)" by simp
    from lo hi nd IH(1) show ?thesis by simp
  qed
qed


lemma powi_nat: "0 \<le> k \<Longrightarrow> (of_int b :: rat) powi k = of_int (b ^ nat k)"
  by (simp add: power_int_def)

lemma ilog_bounds:
  assumes b: "1 < b" and x: "x \<noteq> 0"
  shows "of_int b powi ilog b x \<le> \<bar>x\<bar> \<and> \<bar>x\<bar> < of_int b powi (ilog b x + 1)"
proof -
  obtain p q where pq: "quotient_of \<bar>x\<bar> = (p, q)" by (cases "quotient_of \<bar>x\<bar>")
  then have q: "0 < q" by (rule quotient_of_denom_pos)
  from pq have ax: "\<bar>x\<bar> = of_int p / of_int q" by (rule quotient_of_div)
  have p: "0 < p"
  proof -
    from x have "0 < \<bar>x\<bar>" by simp
    with ax q show ?thesis by (simp add: zero_less_divide_iff)
  qed
  let ?B = "of_int b :: rat"
  let ?dp = "ndigits b p" and ?dq = "ndigits b q"
  have B: "1 < ?B" using b by simp
  note np = ndigits_bounds [OF b p] and nq = ndigits_bounds [OF b q]
  have P1: "?B powi (?dp - 1) \<le> of_int p" and P2: "of_int p < ?B powi ?dp"
    using np by (simp_all add: powi_nat)
  have Q1: "?B powi (?dq - 1) \<le> of_int q" and Q2: "of_int q < ?B powi ?dq"
    using nq by (simp_all add: powi_nat)
  have pos: "\<And>k. 0 < ?B powi k" using B by simp
  have up: "\<bar>x\<bar> < ?B powi (?dp - ?dq + 1)"
  proof -
    have "of_int p / of_int q < ?B powi ?dp / ?B powi (?dq - 1)"
      using P2 Q1 p q pos by (simp add: frac_less)
    also have "\<dots> = ?B powi (?dp - (?dq - 1))"
      using B by (simp add: power_int_diff)
    also have "?dp - (?dq - 1) = ?dp - ?dq + 1" by simp
    finally show ?thesis using ax by simp
  qed
  have lo: "?B powi (?dp - ?dq - 1) < \<bar>x\<bar>"
  proof -
    have "?B powi (?dp - 1) / ?B powi ?dq < of_int p / of_int q"
      using P1 Q2 p q pos by (simp add: frac_less2)
    moreover have "?B powi (?dp - 1) / ?B powi ?dq = ?B powi (?dp - ?dq - 1)"
      using B by (simp add: diff_right_commute power_int_diff)
    ultimately show ?thesis using ax by simp
  qed
  have il: "ilog b x = (if ?B powi (?dp - ?dq) \<le> \<bar>x\<bar> then ?dp - ?dq else ?dp - ?dq - 1)"
    using pq by (simp add: ilog_def)
  show ?thesis
  proof (cases "?B powi (?dp - ?dq) \<le> \<bar>x\<bar>")
    case True
    with il up show ?thesis by simp
  next
    case False
    with il lo show ?thesis by (simp add: less_imp_le)
  qed
qed


lemma round_sig_exact:
  assumes b: "1 < b" and m: "m \<noteq> 0" and digits: "\<bar>m\<bar> < b ^ nat prec" and prec: "0 < prec"
    and e: "emin \<le> e"
  shows "round_sig b prec emin (of_int m * of_int b powi e) = of_int m * of_int b powi e"
proof -
  let ?B = "of_int b :: rat"
  define x where "x = of_int m * ?B powi e"
  have B: "1 < ?B" using b by simp
  have pos: "\<And>k. 0 < ?B powi k" using B by simp
  have Bne: "?B \<noteq> 0" using B by simp
  have x: "x \<noteq> 0" using m Bne by (simp add: x_def)
  have ax: "\<bar>x\<bar> = of_int \<bar>m\<bar> * ?B powi e"
    using pos [of e] by (simp add: abs_mult x_def)
  let ?a = "ilog b x"
  from ilog_bounds [OF b x] have "?B powi ?a \<le> \<bar>x\<bar>" by blast
  also have "\<bar>x\<bar> < ?B powi prec * ?B powi e"
  proof -
    have "of_int \<bar>m\<bar> < (of_int (b ^ nat prec) :: rat)" using digits by (simp only: of_int_less_iff)
    also have "(of_int (b ^ nat prec) :: rat) = ?B powi prec" using prec by (simp add: powi_nat)
    finally show ?thesis using pos [of e] ax by simp
  qed
  also have "?B powi prec * ?B powi e = ?B powi (prec + e)"
    using B by (simp add: power_int_add)
  finally have lt: "?B powi ?a < ?B powi (prec + e)" .
  have "?a < prec + e"
  proof (rule ccontr)
    assume "\<not> ?a < prec + e"
    then have "prec + e \<le> ?a" by simp
    then have "?B powi (prec + e) \<le> ?B powi ?a"
      using B by (intro power_int_increasing) simp_all
    with lt show False by simp
  qed
  then have le: "max (?a - (prec - 1)) emin \<le> e" using e by simp
  define e' where "e' = max (?a - (prec - 1)) emin"
  define E where "E = ?B powi e'"
  define D where "D = b ^ nat (e - e')"
  have e': "e' \<le> e" using le by (simp add: e'_def)
  have E: "0 < E" using pos by (simp add: E_def)
  have "?B powi e = ?B powi (e - e') * ?B powi e'"
    by (metis Bne diff_add_cancel power_int_add)
  also have "?B powi (e - e') = of_int D"
    using e' by (simp add: powi_nat D_def)
  finally have split: "?B powi e = of_int D * E" by (simp add: E_def)
  have "\<bar>x\<bar> / E = of_int \<bar>m\<bar> * (of_int D * E) / E"
    by (simp only: ax split)
  also have "\<dots> = of_int (\<bar>m\<bar> * D)"
    using E by simp
  finally have n: "round_half_even (\<bar>x\<bar> / E) = \<bar>m\<bar> * D"
    by (simp only: round_half_even_of_int)
  have sg: "sgn x = of_int (sgn m)"
    unfolding x_def using pos [of e]
    by (metis Fract_of_int_eq mult.right_neutral sgn_mult sgn_pos sgn_rat)
  have "round_sig b prec emin x = sgn x * of_int (round_half_even (\<bar>x\<bar> / E)) * E"
    by (simp only: round_sig_def x if_False Let_def E_def e'_def)
  also have "\<dots> = of_int (sgn m * \<bar>m\<bar>) * (of_int D * E)"
    by (simp only: n sg of_int_mult mult.assoc)
  also have "\<dots> = x" by (simp only: split [symmetric] mult_sgn_abs x_def)
  finally show ?thesis by (simp only: x_def)
qed


lemma ilog_zero: "1 < b \<Longrightarrow> ilog b 0 = - 2"
proof -
  assume b: "1 < b"
  have n0: "ndigits b 0 = 0" by (subst ndigits.simps) simp
  have "ndigits b 1 = 1 + ndigits b (1 div b)" using b by (subst ndigits.simps) simp
  also have "1 div b = 0" using b by simp
  finally have n1: "ndigits b 1 = 1" using n0 by simp
  have "\<not> (of_int b :: rat) powi (- 1) \<le> 0" using b by (simp add: not_le)
  then show ?thesis by (simp add: ilog_def n0 n1)
qed

lemma unrounded_28_digits:
  assumes "\<bar>m\<bar> < 10 ^ 28" and "- 1000026 \<le> e"
  shows "unrounded (of_int m * 10 powi e)"
proof (cases "m = 0")
  case True
  then show ?thesis by (simp add: unrounded_def context_round_def round_sig_def)
next
  case False
  have "round_sig 10 28 (- 999999 - 27) (of_int m * of_int 10 powi e) = of_int m * of_int 10 powi e"
    using assms False by (intro round_sig_exact) simp_all
  then show ?thesis by (simp add: unrounded_def context_round_def)
qed

lemma representable_53_bits:
  assumes "\<bar>m\<bar> < 2 ^ 53" and "- 1074 \<le> e" and "e \<le> 971"
  shows "representable (of_int m * 2 powi e)"
proof (cases "m = 0")
  case True
  then show ?thesis
    by (simp add: representable_def float_of_Decimal_def round_sig_def ilog_zero)
next
  case False
  let ?x = "of_int m * 2 powi e :: rat"
  have r: "round_sig 2 53 (- 1074) (of_int m * of_int 2 powi e) = of_int m * of_int 2 powi e"
    using assms False by (intro round_sig_exact) simp_all
  have x: "?x \<noteq> 0" using False by simp
  from ilog_bounds [of 2 ?x] x have "(2::rat) powi ilog 2 ?x \<le> \<bar>?x\<bar>" by simp
  also have "\<bar>?x\<bar> = of_int \<bar>m\<bar> * 2 powi e" by (simp add: abs_mult)
  also have "\<dots> < 2 ^ 53 * 2 powi e"
  proof -
    have "(of_int \<bar>m\<bar> :: rat) < of_int (2 ^ 53)" using assms(1) by (simp only: of_int_less_iff)
    then show ?thesis by simp
  qed
  also have "\<dots> = 2 powi (53 + e)" by (simp add: power_int_add)
  finally have "(2::rat) powi ilog 2 ?x < 2 powi (53 + e)" .
  then have "ilog 2 ?x < 53 + e"
    by (metis linorder_not_less one_less_numeral_iff power_int_increasing semiring_norm(76) less_imp_le)
  with assms(3) have "\<not> 1024 \<le> ilog 2 ?x" by simp
  with r show ?thesis by (simp add: representable_def float_of_Decimal_def)
qed

section \<open>Writing operations\<close>

lemma execute_cases:
  "execute fault stmt c =
     (if closed c then (Inl ConnectionAlreadyClosed, c)
      else if aborted c then (Inl InFailedSqlTransaction, c)
      else if fault \<noteq> None then (Inl (the fault), after_error (the fault) c)
      else case stmt (working c) of
             Inl e \<Rightarrow> (Inl e, c\<lparr>aborted := True\<rparr>)
           | Inr d \<Rightarrow> (Inr (), c\<lparr>working := d\<rparr>))"
  by (simp add: execute_def split: option.splits)

text \<open>
  The \<^verbatim>\<open>try\<close> block and the handler of a writing operation, case by case. On a connection
  that is closed already, or that breaks during the statement, the call of \<^verbatim>\<open>rollback\<close> in
  the handler raises and the operation returns nothing. Otherwise the operation returns:
  \<open>False\<close> after a rollback when the engine reports an error, \<open>True\<close> after a commit when
  it reports none.
\<close>

lemma try_except_cases:
  "(case execute fault stmt c of
      (Inr u, c') \<Rightarrow>
        (case commit c' of
           Inr c'' \<Rightarrow> (Returns True, c'')
         | Inl e \<Rightarrow> except_handler c')
    | (Inl e, c') \<Rightarrow> except_handler c')
   = (if closed c then (Raises ConnectionAlreadyClosed, c)
      else if aborted c then (Returns False, c\<lparr>working := committed c, aborted := False\<rparr>)
      else if fault \<noteq> None \<and> connection_error (the fault)
        then (Raises ConnectionAlreadyClosed, c\<lparr>closed := True\<rparr>)
      else if fault \<noteq> None then (Returns False, c\<lparr>working := committed c, aborted := False\<rparr>)
      else case stmt (working c) of
             Inl e \<Rightarrow> (Returns False, c\<lparr>working := committed c, aborted := False\<rparr>)
           | Inr d \<Rightarrow> (Returns True, c\<lparr>working := d, committed := d\<rparr>))"
  by (simp add: execute_cases after_error_def commit_def rollback_def except_handler_def
      split: sum.splits)

text \<open>
  Claim C7 fails when the statement fails because the connection is lost, as it is when
  the server restarts or the network drops during the call. \<^verbatim>\<open>execute\<close> raises the
  \<^verbatim>\<open>OperationalError\<close>, the handler of \<^verbatim>\<open>psycopg2.Error\<close> calls \<^verbatim>\<open>self.conn.rollback()\<close> on the
  broken connection, that call raises an \<^verbatim>\<open>InterfaceError\<close>, and the exception leaves the
  method: none of the four operations returns \<open>False\<close>.
\<close>

theorem writes_raise_after_lost_connection:
  "create_asset (Some ConnectionLost) (connect only_aapl) ''BTC'' new_year_2024 (1 / 2) 500
       ''Crypto''
     = (Raises ConnectionAlreadyClosed, dropped (connect only_aapl))
   \<and> update_asset Cascade (Some ConnectionLost) (connect only_aapl) ''AAPL'' ''AAPL''
       new_year_2024 12 1800 ''Equities''
     = (Raises ConnectionAlreadyClosed, dropped (connect only_aapl))
   \<and> delete_asset (Some ConnectionLost) (connect only_aapl) ''AAPL''
     = (Raises ConnectionAlreadyClosed, dropped (connect only_aapl))
   \<and> add_transaction noon (Some ConnectionLost) (connect only_aapl) ''AAPL'' ''Buy'' 1500 None
     = (Raises ConnectionAlreadyClosed, dropped (connect only_aapl))
   \<and> Raises ConnectionAlreadyClosed \<noteq> Returns False"
  by (simp add: create_asset_def update_asset_def delete_asset_def add_transaction_def
      execute_def after_error_def connection_error_def except_handler_def rollback_def
      dropped_def connect_def)

text \<open>
  The same happens in every state and for every argument: a writing operation raises
  exactly when the connection is closed before the call or breaks during it. In every
  other case it returns, and then no transaction is left open: the next operation starts
  from the committed tables. It returns \<open>False\<close> with the committed tables as they were, or
  \<open>True\<close> with the result of its statement committed.
\<close>

lemma try_except_raises:
  "(\<exists>e. fst (case execute fault stmt c of
             (Inr u, c') \<Rightarrow>
               (case commit c' of
                  Inr c'' \<Rightarrow> (Returns True, c'')
                | Inl e \<Rightarrow> except_handler c')
           | (Inl e, c') \<Rightarrow> except_handler c') = Raises e)
   \<longleftrightarrow> closed c \<or> \<not> aborted c \<and> (\<exists>e. fault = Some e \<and> connection_error e)"
  unfolding try_except_cases by (auto split: sum.splits)

lemma writes_raise:
  "(\<exists>e. fst (create_asset fault c t d s cb a) = Raises e)
     \<longleftrightarrow> closed c \<or> \<not> aborted c \<and> (\<exists>e. fault = Some e \<and> connection_error e)"
  "(\<exists>e. fst (update_asset on_update fault c t t' d s cb a) = Raises e)
     \<longleftrightarrow> closed c \<or> \<not> aborted c \<and> (\<exists>e. fault = Some e \<and> connection_error e)"
  "(\<exists>e. fst (delete_asset fault c t) = Raises e)
     \<longleftrightarrow> closed c \<or> \<not> aborted c \<and> (\<exists>e. fault = Some e \<and> connection_error e)"
  "(\<exists>e. fst (add_transaction now fault c t ty am n) = Raises e)
     \<longleftrightarrow> closed c \<or> \<not> aborted c \<and> (\<exists>e. fault = Some e \<and> connection_error e)"
  unfolding create_asset_def update_asset_def delete_asset_def add_transaction_def
  by (rule try_except_raises)+

lemma try_except_returns:
  assumes "(case execute fault stmt c of
              (Inr u, c') \<Rightarrow>
                (case commit c' of
                   Inr c'' \<Rightarrow> (Returns True, c'')
                 | Inl e \<Rightarrow> except_handler c')
            | (Inl e, c') \<Rightarrow> except_handler c') = (Returns b, c')"
  shows "working c' = committed c' \<and> \<not> aborted c' \<and> \<not> closed c'
       \<and> (if b then stmt (working c) = Inr (committed c') else committed c' = committed c)"
  using assms unfolding try_except_cases by (auto split: if_splits sum.splits)

lemma writes_return:
  "create_asset fault c t d s cb a = (Returns b, c') \<Longrightarrow>
     working c' = committed c' \<and> \<not> aborted c' \<and> \<not> closed c'
     \<and> (if b then insert_asset \<lparr>ticker = t, purchase_date = d, shares = s, cost_basis = cb,
                                 asset_class = a\<rparr> (working c) = Inr (committed c')
        else committed c' = committed c)"
  "update_asset on_update fault c t t' d s cb a = (Returns b, c') \<Longrightarrow>
     working c' = committed c' \<and> \<not> aborted c' \<and> \<not> closed c'
     \<and> (if b then update_assets on_update t
                    \<lparr>ticker = t', purchase_date = d, shares = s, cost_basis = cb,
                     asset_class = a\<rparr> (working c) = Inr (committed c')
        else committed c' = committed c)"
  "delete_asset fault c t = (Returns b, c') \<Longrightarrow>
     working c' = committed c' \<and> \<not> aborted c' \<and> \<not> closed c'
     \<and> (if b then delete_assets t (working c) = Inr (committed c')
        else committed c' = committed c)"
  "add_transaction now fault c t ty am n = (Returns b, c') \<Longrightarrow>
     working c' = committed c' \<and> \<not> aborted c' \<and> \<not> closed c'
     \<and> (if b then insert_transaction
                    \<lparr>txn_ticker = t, transaction_date = date now, transaction_type = ty,
                     amount = am, txn_notes = n\<rparr> (working c) = Inr (committed c')
        else committed c' = committed c)"
  unfolding create_asset_def update_asset_def delete_asset_def add_transaction_def
  by (erule try_except_returns)+

text \<open>
  Claim C3. When a row with ticker \<open>t\<close> exists and no transaction is open,
  \<^verbatim>\<open>create_asset(t, ...)\<close> leaves both tables as they are, the existing row included, and
  returns \<open>True\<close>; it does not return \<open>True\<close> only when the statement fails with an error of
  the engine or of the connection, and the tables are unchanged then as well.
\<close>

theorem create_asset_existing_ticker:
  assumes "t \<in> set (tickers (working c))" and "working c = committed c"
  shows "committed (snd (create_asset fault c t d s cb a)) = committed c
       \<and> working (snd (create_asset fault c t d s cb a)) = working c
       \<and> (fst (create_asset fault c t d s cb a) = Returns True
            \<longleftrightarrow> fault = None \<and> \<not> aborted c \<and> \<not> closed c)"
  using assms
  by (simp add: create_asset_def try_except_cases insert_asset_def)

theorem create_asset_existing_ticker_witness:
  "''AAPL'' \<in> set (tickers (working (connect only_aapl)))
   \<and> working (connect only_aapl) = committed (connect only_aapl)
   \<and> committed (snd (create_asset None (connect only_aapl) ''AAPL'' new_year_2024 3 99
        ''Crypto'')) = only_aapl
   \<and> fst (create_asset None (connect only_aapl) ''AAPL'' new_year_2024 3 99 ''Crypto'')
       = Returns True"
proof -
  have present: "''AAPL'' \<in> set (tickers (working (connect only_aapl)))"
    by (simp add: tickers_def example_defs)
  have idle: "working (connect only_aapl) = committed (connect only_aapl)"
    by (simp add: connect_def)
  from create_asset_existing_ticker [OF present idle, of None new_year_2024 3 99 "''Crypto''"]
  show ?thesis using present idle by (simp add: connect_def)
qed

text \<open>
  Claim C10. When no row has ticker \<open>t\<close> and no transaction is open,
  \<^verbatim>\<open>update_asset\<close> with original ticker \<open>t\<close> and \<^verbatim>\<open>delete_asset\<close> of \<open>t\<close> leave both
  tables unchanged and return \<open>True\<close> (they do not only when the statement fails with an
  error of the engine or of the connection): that the ticker is missing is not reported.
\<close>

theorem missing_ticker_not_reported:
  assumes "t \<notin> set (tickers (working c))" and "working c = committed c"
  shows "committed (snd (update_asset on_update fault c t t' d s cb a)) = committed c
       \<and> working (snd (update_asset on_update fault c t t' d s cb a)) = working c
       \<and> (fst (update_asset on_update fault c t t' d s cb a) = Returns True
            \<longleftrightarrow> fault = None \<and> \<not> aborted c \<and> \<not> closed c)
       \<and> committed (snd (delete_asset fault c t)) = committed c
       \<and> working (snd (delete_asset fault c t)) = working c
       \<and> (fst (delete_asset fault c t) = Returns True
            \<longleftrightarrow> fault = None \<and> \<not> aborted c \<and> \<not> closed c)"
  using assms
  by (simp add: update_asset_def delete_asset_def try_except_cases update_assets_def
      delete_assets_def)

theorem missing_ticker_not_reported_witness:
  "''MSFT'' \<notin> set (tickers (working (connect only_aapl)))
   \<and> working (connect only_aapl) = committed (connect only_aapl)
   \<and> committed (snd (update_asset NoAction None (connect only_aapl) ''MSFT'' ''MSFTX''
        new_year_2024 1 1 ''Other'')) = only_aapl
   \<and> fst (update_asset NoAction None (connect only_aapl) ''MSFT'' ''MSFTX'' new_year_2024 1 1
        ''Other'') = Returns True
   \<and> committed (snd (delete_asset None (connect only_aapl) ''MSFT'')) = only_aapl
   \<and> fst (delete_asset None (connect only_aapl) ''MSFT'') = Returns True"
proof -
  have missing: "''MSFT'' \<notin> set (tickers (working (connect only_aapl)))"
    by (simp add: tickers_def example_defs)
  have idle: "working (connect only_aapl) = committed (connect only_aapl)"
    by (simp add: connect_def)
  from missing_ticker_not_reported
    [OF missing idle, of NoAction None "''MSFTX''" new_year_2024 1 1 "''Other''"]
  show ?thesis using missing idle by (simp add: connect_def)
qed

text \<open>
  Claim C9. \<^verbatim>\<open>add_transaction\<close> takes the ticker, the type, the amount and the notes from
  its caller, and no date. The row it creates holds these four and, as its date, the
  year, the month and the day that the clock of the tracker's process shows during the
  call, whatever the four arguments are.
\<close>

theorem add_transaction_date_from_clock:
  assumes "add_transaction now fault c t ty am n = (Returns True, c')"
  shows "transactions (committed c') =
           transactions (working c) @
             [\<lparr>txn_ticker = t,
               transaction_date = \<lparr>year = year now, month = month now, day = day now\<rparr>,
               transaction_type = ty, amount = am, txn_notes = n\<rparr>]"
  using assms
  by (auto simp: add_transaction_def try_except_cases insert_transaction_def date_def
      split: if_splits)

theorem add_transaction_date_from_clock_witness:
  "add_transaction noon None (connect only_aapl) ''AAPL'' ''Buy'' 1500 None
     = (Returns True,
        connect \<lparr>assets = [aapl],
                 transactions = [\<lparr>txn_ticker = ''AAPL'',
                                   transaction_date = \<lparr>year = 2026, month = 11, day = 3\<rparr>,
                                   transaction_type = ''Buy'', amount = 1500,
                                   txn_notes = None\<rparr>]\<rparr>)
   \<and> transactions (committed (connect \<lparr>assets = [aapl],
                 transactions = [\<lparr>txn_ticker = ''AAPL'',
                                   transaction_date = \<lparr>year = 2026, month = 11, day = 3\<rparr>,
                                   transaction_type = ''Buy'', amount = 1500,
                                   txn_notes = None\<rparr>]\<rparr>))
       = transactions (working (connect only_aapl)) @
           [\<lparr>txn_ticker = ''AAPL'',
             transaction_date = \<lparr>year = year noon, month = month noon, day = day noon\<rparr>,
             transaction_type = ''Buy'', amount = 1500, txn_notes = None\<rparr>]
   \<and> year noon = 2026 \<and> month noon = 11 \<and> day noon = 3"
proof -
  have logged: "add_transaction noon None (connect only_aapl) ''AAPL'' ''Buy'' 1500 None
     = (Returns True,
        connect \<lparr>assets = [aapl],
                 transactions = [\<lparr>txn_ticker = ''AAPL'',
                                   transaction_date = \<lparr>year = 2026, month = 11, day = 3\<rparr>,
                                   transaction_type = ''Buy'', amount = 1500,
                                   txn_notes = None\<rparr>]\<rparr>)"
    by (simp add: add_transaction_def try_except_cases insert_transaction_def
        tickers_def date_def connect_def only_aapl_def aapl_def noon_def)
  have clock: "year noon = 2026 \<and> month noon = 11 \<and> day noon = 3"
    by (simp add: noon_def)
  from add_transaction_date_from_clock [OF logged] logged clock show ?thesis by blast
qed

text \<open>
  The date does not depend on what the caller passes: two calls that read the same clock
  store the same date, whatever their arguments and whatever the state.
\<close>

lemma transaction_date_same_for_all_arguments:
  assumes "add_transaction now fault c t ty am n = (Returns True, c1)"
    and "add_transaction now fault' c' t' ty' am' n' = (Returns True, c2)"
  shows "transaction_date (last (transactions (committed c1)))
           = transaction_date (last (transactions (committed c2)))"
  using assms
  by (auto simp: add_transaction_def try_except_cases insert_transaction_def
      split: if_splits)

section \<open>Renaming a ticker\<close>

lemma replaced_ticker_present:
  assumes "t \<in> set (map ticker xs)"
  shows "ticker row \<in> set (map ticker (map (\<lambda>r. if ticker r = t then row else r) xs))"
proof -
  from assms obtain r where "r \<in> set xs" "ticker r = t" by auto
  then have "row \<in> set (map (\<lambda>r. if ticker r = t then row else r) xs)" by force
  then show ?thesis by force
qed

lemma replaced_ticker_absent:
  assumes "ticker row \<noteq> t"
  shows "t \<notin> set (map ticker (map (\<lambda>r. if ticker r = t then row else r) xs))"
  using assms by (induction xs) auto

lemma rename_unreferenced:
  assumes "t \<notin> set (map txn_ticker xs)"
  shows "map (\<lambda>x. if txn_ticker x = t then x\<lparr>txn_ticker := t'\<rparr> else x) xs = xs"
  using assms by (induction xs) auto

lemma update_assets_rename:
  assumes "t \<in> set (tickers d)" and "ticker row \<noteq> t"
    and "update_assets on_update t row d = Inr d'"
  shows "ticker row \<in> set (tickers d')" and "t \<notin> set (tickers d')"
    and "transactions d' =
           map (\<lambda>x. if txn_ticker x = t then x\<lparr>txn_ticker := ticker row\<rparr> else x)
             (transactions d)"
proof -
  let ?as = "map (\<lambda>r. if ticker r = t then row else r) (assets d)"
  from assms have a: "assets d' = ?as"
    by (auto simp: update_assets_def Let_def split: if_splits fk_action.splits)
  from assms(1) have "ticker row \<in> set (map ticker ?as)"
    unfolding tickers_def by (rule replaced_ticker_present)
  with a show "ticker row \<in> set (tickers d')"
    by (simp add: tickers_def)
  from assms(2) have "t \<notin> set (map ticker ?as)"
    by (rule replaced_ticker_absent)
  with a show "t \<notin> set (tickers d')"
    by (simp add: tickers_def)
  show "transactions d' =
          map (\<lambda>x. if txn_ticker x = t then x\<lparr>txn_ticker := ticker row\<rparr> else x)
            (transactions d)"
  proof (cases "t \<in> set (map txn_ticker (transactions d))")
    case True
    with assms show ?thesis
      by (auto simp: update_assets_def Let_def split: if_splits fk_action.splits)
  next
    case False
    then have "map (\<lambda>x. if txn_ticker x = t then x\<lparr>txn_ticker := ticker row\<rparr> else x)
                 (transactions d) = transactions d"
      by (rule rename_unreferenced)
    moreover from assms False have "transactions d' = transactions d"
      by (auto simp: update_assets_def Let_def split: if_splits fk_action.splits)
    ultimately show ?thesis by simp
  qed
qed

lemma update_asset_success:
  assumes "update_asset on_update fault c t t' d s cb a = (Returns True, c')"
  shows "\<exists>db. update_assets on_update t
                 \<lparr>ticker = t', purchase_date = d, shares = s, cost_basis = cb,
                  asset_class = a\<rparr> (working c) = Inr db
              \<and> c' = c\<lparr>working := db, committed := db\<rparr> \<and> \<not> aborted c \<and> \<not> closed c"
  using assms
  by (auto simp: update_asset_def try_except_cases split: sum.splits if_splits)

lemma read_all_assets_tickers:
  "\<not> aborted c \<Longrightarrow> \<not> closed c \<Longrightarrow>
   ticker ` set (fst (read_all_assets None c)) = set (tickers (working c))"
  by (simp add: read_all_assets_def execute_query_def tickers_def)

text \<open>
  Claim C4. When an asset with ticker \<open>t\<close> exists and \<^verbatim>\<open>update_asset\<close> renames it to another
  ticker \<open>t'\<close> and returns \<open>True\<close>, then \<^verbatim>\<open>read_all_assets\<close> has a row for \<open>t'\<close> and none for
  \<open>t\<close>, and the transactions are those before with \<open>t'\<close> in place of \<open>t\<close>: every transaction of
  \<open>t\<close> now refers to \<open>t'\<close>, the others are unchanged. This holds for either update rule of the
  reference (the instance of the claim is \<open>t = AAPL\<close>, \<open>t' = AAPLX\<close>).
\<close>

theorem rename_keeps_transactions:
  assumes "t \<in> set (tickers (working c))" and "t \<noteq> t'"
    and "update_asset on_update fault c t t' d s cb a = (Returns True, c')"
  shows "t' \<in> ticker ` set (fst (read_all_assets None c'))
       \<and> t \<notin> ticker ` set (fst (read_all_assets None c'))
       \<and> transactions (committed c') =
           map (\<lambda>x. if txn_ticker x = t then x\<lparr>txn_ticker := t'\<rparr> else x)
             (transactions (working c))"
proof -
  let ?row = "\<lparr>ticker = t', purchase_date = d, shares = s, cost_basis = cb, asset_class = a\<rparr>"
  from update_asset_success [OF assms(3)] obtain db where
    db: "update_assets on_update t ?row (working c) = Inr db"
    and c': "c' = c\<lparr>working := db, committed := db\<rparr>" and na: "\<not> aborted c"
    and nc: "\<not> closed c"
    by blast
  have r: "ticker ?row \<noteq> t" using assms(2) by simp
  note u = update_assets_rename [OF assms(1) r db]
  from c' na nc have "ticker ` set (fst (read_all_assets None c')) = set (tickers db)"
    by (simp add: read_all_assets_tickers)
  with u c' show ?thesis by simp
qed

theorem rename_keeps_transactions_witness:
  "''AAPL'' \<in> set (tickers (working (connect aapl_with_history)))
   \<and> ''AAPL'' \<noteq> ''AAPLX''
   \<and> update_asset Cascade None (connect aapl_with_history) ''AAPL'' ''AAPLX'' new_year_2024 10
        1500 ''Equities'' = (Returns True, connect aaplx_with_history)
   \<and> ''AAPLX'' \<in> ticker ` set (fst (read_all_assets None (connect aaplx_with_history)))
   \<and> ''AAPL'' \<notin> ticker ` set (fst (read_all_assets None (connect aaplx_with_history)))
   \<and> transactions (committed (connect aaplx_with_history))
       = map (\<lambda>x. if txn_ticker x = ''AAPL'' then x\<lparr>txn_ticker := ''AAPLX''\<rparr> else x)
           (transactions (working (connect aapl_with_history)))
   \<and> map ticker (fst (read_all_assets None (connect aaplx_with_history))) = [''AAPLX'', ''BTC'']
   \<and> transactions (committed (connect aaplx_with_history))
       = [buy ''AAPLX'', buy ''BTC'', dividend ''AAPLX'']"
proof -
  have present: "''AAPL'' \<in> set (tickers (working (connect aapl_with_history)))"
    by (simp add: tickers_def example_defs)
  have other: "''AAPL'' \<noteq> ''AAPLX''" by simp
  have renamed: "update_asset Cascade None (connect aapl_with_history) ''AAPL'' ''AAPLX''
      new_year_2024 10 1500 ''Equities'' = (Returns True, connect aaplx_with_history)"
    by (simp add: update_asset_def try_except_cases update_assets_def tickers_def
        example_defs)
  have listed: "map ticker (fst (read_all_assets None (connect aaplx_with_history)))
      = [''AAPLX'', ''BTC'']"
    by (simp add: read_all_assets_def execute_query_def example_defs less_eq_char_def
        less_char_def)
  have history: "transactions (committed (connect aaplx_with_history))
      = [buy ''AAPLX'', buy ''BTC'', dividend ''AAPLX'']"
    by (simp add: connect_def aaplx_with_history_def)
  from rename_keeps_transactions [OF present other renamed] present other renamed listed history
  show ?thesis by blast
qed

text \<open>
  Without an update rule on the reference the same rename is refused while transactions
  refer to the ticker: \<^verbatim>\<open>update_asset\<close> returns \<open>False\<close> and nothing changes.
\<close>

lemma rename_refused_without_update_rule:
  "update_asset NoAction None (connect aapl_with_history) ''AAPL'' ''AAPLX'' new_year_2024 10
     1500 ''Equities'' = (Returns False, connect aapl_with_history)"
  by (simp add: update_asset_def try_except_cases update_assets_def tickers_def
      example_defs)

section \<open>The constraints are kept\<close>

text \<open>
  A statement that succeeds on tables with unique tickers and valid references leaves
  such tables, for either update rule of the reference; so does every writing operation,
  since it commits the result of its statement or keeps the committed tables, also when
  it raises.
\<close>

lemma insert_asset_integrity:
  "integrity d \<Longrightarrow> insert_asset row d = Inr d' \<Longrightarrow> integrity d'"
  unfolding integrity_def insert_asset_def tickers_def
  by (auto split: if_splits)

lemma delete_assets_integrity:
  "integrity d \<Longrightarrow> delete_assets t d = Inr d' \<Longrightarrow> integrity d'"
  unfolding integrity_def delete_assets_def tickers_def
  by (fastforce simp: distinct_map_filter split: if_splits)

lemma insert_transaction_integrity:
  "integrity d \<Longrightarrow> insert_transaction row d = Inr d' \<Longrightarrow> integrity d'"
  unfolding integrity_def insert_transaction_def tickers_def
  by (auto split: if_splits)

lemma replaced_ticker_kept:
  "u \<in> set (map ticker xs) \<Longrightarrow> u \<noteq> t \<Longrightarrow>
   u \<in> set (map ticker (map (\<lambda>r. if ticker r = t then row else r) xs))"
  by (induction xs) auto

lemma replaced_same_ticker:
  "ticker row = t \<Longrightarrow> map ticker (map (\<lambda>r. if ticker r = t then row else r) xs) = map ticker xs"
  by (induction xs) auto

lemma update_assets_integrity:
  assumes "integrity d" and "update_assets on_update t row d = Inr d'"
  shows "integrity d'"
proof (cases "t \<in> set (tickers d)")
  case False
  with assms show ?thesis by (simp add: update_assets_def)
next
  case True
  let ?as = "map (\<lambda>r. if ticker r = t then row else r) (assets d)"
  from assms(2) True have a: "assets d' = ?as" and dist: "distinct (map ticker ?as)"
    by (auto simp: update_assets_def Let_def split: if_splits fk_action.splits)
  from assms(1) have refs: "\<And>x. x \<in> set (transactions d) \<Longrightarrow> txn_ticker x \<in> set (map ticker (assets d))"
    by (simp add: integrity_def tickers_def)
  have new: "ticker row \<in> set (map ticker ?as)"
    using True unfolding tickers_def by (rule replaced_ticker_present)
  have "txn_ticker y \<in> set (map ticker ?as)" if y: "y \<in> set (transactions d')" for y
  proof (cases "ticker row = t")
    case same: True
    then have "map ticker ?as = map ticker (assets d)" by (rule replaced_same_ticker)
    moreover from assms(2) True same have "transactions d' = transactions d"
      by (auto simp: update_assets_def Let_def split: if_splits fk_action.splits)
    ultimately show ?thesis using refs y by simp
  next
    case other: False
    show ?thesis
    proof (cases "t \<in> set (map txn_ticker (transactions d))")
      case False
      with assms(2) True other have "transactions d' = transactions d"
        by (auto simp: update_assets_def Let_def split: if_splits fk_action.splits)
      with y have y': "y \<in> set (transactions d)" by simp
      with False have "txn_ticker y \<noteq> t" by auto
      with refs [OF y'] show ?thesis by (rule replaced_ticker_kept)
    next
      case referenced: True
      with assms(2) \<open>t \<in> set (tickers d)\<close> other have
        "transactions d' = map (\<lambda>x. if txn_ticker x = t then x\<lparr>txn_ticker := ticker row\<rparr> else x)
                             (transactions d)"
        by (auto simp: update_assets_def Let_def split: if_splits fk_action.splits)
      with y obtain x where x: "x \<in> set (transactions d)"
        and yx: "y = (if txn_ticker x = t then x\<lparr>txn_ticker := ticker row\<rparr> else x)"
        by auto
      show ?thesis
      proof (cases "txn_ticker x = t")
        case True
        with yx new show ?thesis by simp
      next
        case False
        from refs [OF x] False have "txn_ticker x \<in> set (map ticker ?as)"
          by (rule replaced_ticker_kept)
        with yx False show ?thesis by simp
      qed
    qed
  qed
  with a dist show ?thesis by (simp add: integrity_def tickers_def)
qed

lemma try_except_integrity:
  assumes "integrity (committed c)" and "integrity (working c)"
    and "\<And>d d'. integrity d \<Longrightarrow> stmt d = Inr d' \<Longrightarrow> integrity d'"
  shows "integrity (committed (snd (case execute fault stmt c of
                                      (Inr u, c') \<Rightarrow>
                                        (case commit c' of
                                           Inr c'' \<Rightarrow> (Returns True, c'')
                                         | Inl e \<Rightarrow> except_handler c')
                                    | (Inl e, c') \<Rightarrow> except_handler c')))"
  using assms unfolding try_except_cases
  by (auto split: sum.splits)

lemma writes_keep_integrity:
  assumes "integrity (committed c)" and "integrity (working c)"
  shows "integrity (committed (snd (create_asset fault c t d s cb a)))"
    and "integrity (committed (snd (update_asset on_update fault c t t' d s cb a)))"
    and "integrity (committed (snd (delete_asset fault c t)))"
    and "integrity (committed (snd (add_transaction now fault c t ty am n)))"
  unfolding create_asset_def update_asset_def delete_asset_def add_transaction_def
  by (rule try_except_integrity [OF assms], erule (1) insert_asset_integrity
      update_assets_integrity delete_assets_integrity insert_transaction_integrity)+

text \<open>The reading operations leave the tables alone, and the assets come sorted by ticker.\<close>

lemma reads_keep_tables:
  "working (snd (read_all_assets fault c)) = working c"
  "committed (snd (read_all_assets fault c)) = committed c"
  "working (snd (get_portfolio_summary fault c)) = working c"
  "committed (snd (get_portfolio_summary fault c)) = committed c"
  "working (snd (get_asset_allocation fault c)) = working c"
  "committed (snd (get_asset_allocation fault c)) = committed c"
  "working (snd (get_insights fault c)) = working c"
  "committed (snd (get_insights fault c)) = committed c"
  by (simp_all add: read_all_assets_def get_portfolio_summary_def get_asset_allocation_def
      get_insights_def execute_query_def after_error_def split: option.splits)

lemma read_all_assets_sorted: "sorted (map ticker (fst (read_all_assets fault c)))"
  by (simp add: read_all_assets_def execute_query_def split: option.splits)

section \<open>Aggregates over no rows and after an error\<close>

text \<open>
  Claim C6. On an empty \<^verbatim>\<open>assets\<close> table \<^verbatim>\<open>get_insights\<close> returns the dictionary with
  \<open>total_assets = 0\<close> and the four other fields \<open>0.0\<close>, not the empty dictionary of the error
  case: the count is 0, the other aggregates are \<^verbatim>\<open>NULL\<close> and become \<open>0.0\<close>.
\<close>

theorem get_insights_no_assets:
  assumes "assets (working c) = []" and "\<not> aborted c" and "\<not> closed c"
  shows "get_insights None c = (zero_insights, c)"
  using assms
  by (simp add: get_insights_def execute_query_def select_insights_def sql_sum_def sql_avg_def
      sql_min_def sql_max_def float_or_zero_def zero_insights_def)

theorem get_insights_no_assets_witness:
  "assets (working (connect no_assets)) = [] \<and> \<not> aborted (connect no_assets)
   \<and> \<not> closed (connect no_assets)
   \<and> get_insights None (connect no_assets)
       = ([(''total_assets'', PyInt 0), (''total_cost_basis'', PyFloat (Float 0)),
           (''avg_cost_basis'', PyFloat (Float 0)), (''min_shares'', PyFloat (Float 0)),
           (''max_shares'', PyFloat (Float 0))], connect no_assets)"
proof -
  have empty: "assets (working (connect no_assets)) = []"
    by (simp add: connect_def no_assets_def)
  have usable: "\<not> aborted (connect no_assets)"
    by (simp add: connect_def)
  have opened: "\<not> closed (connect no_assets)"
    by (simp add: connect_def)
  from get_insights_no_assets [OF empty usable opened] empty usable opened show ?thesis
    by (simp add: zero_insights_def)
qed

text \<open>
  Claim C5, as stated, fails: when the statement fails \<^verbatim>\<open>get_portfolio_summary\<close> returns
  the empty dictionary, which has none of the five keys.
\<close>

theorem summary_after_error_counterexample:
  "fst (get_portfolio_summary (Some OtherDatabaseError) (connect no_assets)) = []
   \<and> fst (get_portfolio_summary (Some OtherDatabaseError) (connect no_assets)) \<noteq> zero_summary
   \<and> map_of (fst (get_portfolio_summary (Some OtherDatabaseError) (connect no_assets)))
        ''total_cost_basis'' = None"
  by (simp add: get_portfolio_summary_def execute_query_def connect_def zero_summary_def
      after_error_def)

text \<open>
  Claim C5, amended. \<^verbatim>\<open>get_portfolio_summary\<close> returns the structure with the five fields
  0 when the \<^verbatim>\<open>assets\<close> table is empty, and the empty dictionary when the statement fails
  with a database error.
\<close>

theorem summary_no_assets_or_error:
  "(assets (working c) = [] \<and> fault = None \<and> \<not> aborted c \<and> \<not> closed c
      \<longrightarrow> fst (get_portfolio_summary fault c) = zero_summary)
   \<and> (fault \<noteq> None \<or> aborted c \<or> closed c \<longrightarrow> fst (get_portfolio_summary fault c) = [])"
  by (auto simp: get_portfolio_summary_def execute_query_def select_summary_rows_def
      split: option.splits)

theorem summary_no_assets_or_error_witness:
  "assets (working (connect no_assets)) = [] \<and> \<not> aborted (connect no_assets)
   \<and> \<not> closed (connect no_assets)
   \<and> fst (get_portfolio_summary None (connect no_assets))
       = [(''total_assets_count'', PyInt 0), (''total_cost_basis'', PyInt 0),
          (''total_market_value'', PyInt 0), (''total_gain_loss'', PyInt 0),
          (''avg_cost_basis'', PyInt 0)]
   \<and> aborted ((connect only_aapl)\<lparr>aborted := True\<rparr>)
   \<and> fst (get_portfolio_summary None ((connect only_aapl)\<lparr>aborted := True\<rparr>)) = []"
proof -
  have empty: "assets (working (connect no_assets)) = []"
    by (simp add: connect_def no_assets_def)
  have usable: "\<not> aborted (connect no_assets)"
    by (simp add: connect_def)
  have opened: "\<not> closed (connect no_assets)"
    by (simp add: connect_def)
  have broken: "aborted ((connect only_aapl)\<lparr>aborted := True\<rparr>)"
    by simp
  from summary_no_assets_or_error [of "connect no_assets" None] empty usable opened
  have "fst (get_portfolio_summary None (connect no_assets)) = zero_summary"
    by blast
  moreover from summary_no_assets_or_error [of "(connect only_aapl)\<lparr>aborted := True\<rparr>" None]
    broken
  have "fst (get_portfolio_summary None ((connect only_aapl)\<lparr>aborted := True\<rparr>)) = []"
    by blast
  ultimately show ?thesis using empty usable opened broken by (simp add: zero_summary_def)
qed

section \<open>The portfolio summary\<close>

text \<open>
  Claim C2. With the single row (AAPL, 2024-01-01, 10, 1500.00, Equities) the summary has the
  total cost basis 1500, but the market value 16500 and the gain 15000: line 169 multiplies
  the price, which is the whole cost basis marked up by a tenth, by the number of shares.
  The values 1650 and 150 of the claim are not returned.
\<close>

theorem summary_of_aapl:
  "fst (get_portfolio_summary None (connect only_aapl))
     = [(''total_assets_count'', PyInt 1),
        (''total_cost_basis'', PyDecimal 1500),
        (''total_market_value'', PyDecimal 16500),
        (''total_gain_loss'', PyDecimal 15000),
        (''avg_cost_basis'', PyFloat (Float 1500))]
   \<and> PyDecimal 16500 \<noteq> PyDecimal 1650 \<and> PyDecimal 15000 \<noteq> PyDecimal 150"
  by code_simp

lemma foldl_dec_add_exact:
  "partial_sums_unrounded acc xs \<Longrightarrow> foldl dec_add acc xs = acc + sum_list xs"
  by (induction xs arbitrary: acc) (auto simp: dec_add_def unrounded_def)

lemma series_sum_exact: "sum_unrounded xs \<Longrightarrow> series_sum xs = sum_list xs"
  by (cases xs) (simp_all add: series_sum_def sum_unrounded_def foldl_dec_add_exact)

lemma current_value_exact:
  "list_all (row_unrounded k) rows \<Longrightarrow>
     map (\<lambda>(s, p). dec_mul s p)
       (zip (col_shares rows) (map (\<lambda>x. dec_mul x k) (col_cost_basis rows)))
     = map (exact_value k) rows"
  by (induction rows)
    (auto simp: col_shares_def col_cost_basis_def row_unrounded_def exact_value_def
      dec_mul_def unrounded_def)

lemma gain_loss_exact:
  "list_all (row_unrounded k) rows \<Longrightarrow>
     map (\<lambda>(v, c). dec_sub v c) (zip (map (exact_value k) rows) (col_cost_basis rows))
     = map (exact_gain k) rows"
  by (induction rows)
    (auto simp: col_cost_basis_def row_unrounded_def exact_value_def exact_gain_def
      dec_sub_def unrounded_def)

lemma sum_list_exact_gain:
  "sum_list (map (exact_gain k) rows)
     = sum_list (map (exact_value k) rows) - sum_list (col_cost_basis rows)"
  by (induction rows) (auto simp: exact_gain_def exact_value_def col_cost_basis_def)

lemma sum_list_exact_value:
  "sum_list (map (exact_value k) (select_summary_rows d))
     = (\<Sum>r\<leftarrow>assets d. shares r * cost_basis r * k)"
  by (induction "assets d" arbitrary: d)
    (simp_all add: select_summary_rows_def exact_value_def comp_def mult.assoc)

lemma sum_list_col_cost_basis:
  "sum_list (col_cost_basis (select_summary_rows d)) = (\<Sum>r\<leftarrow>assets d. cost_basis r)"
  by (simp add: select_summary_rows_def col_cost_basis_def comp_def)

text \<open>
  Claim C1, as stated, fails on amounts that need more than 28 significant digits. With
  two holdings of one share that cost 5000000000000000000000000006 each, the price
  5500000000000000000000000006.6 is rounded to 5500000000000000000000000007, and the sums
  of the cost bases and of the values, which have 29 digits, lose their last digit. The
  market value returned is not the sum of shares times cost basis times 1.10, and the gain
  returned is not the market value minus the cost basis returned, whether that difference
  is taken exactly or as a \<^verbatim>\<open>Decimal\<close>.
\<close>

theorem summary_rounding_counterexample:
  "map_of (fst (get_portfolio_summary None (connect two_huge_assets))) ''total_cost_basis''
     = Some (PyDecimal 10000000000000000000000000010)
   \<and> map_of (fst (get_portfolio_summary None (connect two_huge_assets))) ''total_market_value''
     = Some (PyDecimal 11000000000000000000000000010)
   \<and> map_of (fst (get_portfolio_summary None (connect two_huge_assets))) ''total_gain_loss''
     = Some (PyDecimal 1000000000000000000000000002)
   \<and> (\<Sum>r\<leftarrow>assets two_huge_assets. shares r * cost_basis r * (11 / 10))
     \<noteq> 11000000000000000000000000010
   \<and> (11000000000000000000000000010 :: rat) - 10000000000000000000000000010
     \<noteq> 1000000000000000000000000002
   \<and> dec_sub 11000000000000000000000000010 10000000000000000000000000010
     \<noteq> 1000000000000000000000000002"
  by code_simp

text \<open>
  Claim C1, amended. For every non-empty set of asset rows whose summary stays within
  the 28 significant digits of the decimal context (no price, value, gain or running sum
  is rounded), the dictionary returned by \<^verbatim>\<open>get_portfolio_summary\<close> has
  \<open>total_cost_basis\<close> the sum of the cost bases, \<open>total_market_value\<close> the sum over the rows
  of shares times cost basis times 1.10, and \<open>total_gain_loss\<close> the market value minus the
  total cost basis.
\<close>

theorem summary_totals:
  assumes "assets (working c) \<noteq> []" and "\<not> aborted c" and "\<not> closed c"
    and "within_precision (select_summary_rows (working c))"
  shows "map_of (fst (get_portfolio_summary None c)) ''total_cost_basis''
           = Some (PyDecimal (\<Sum>r\<leftarrow>assets (working c). cost_basis r))
       \<and> map_of (fst (get_portfolio_summary None c)) ''total_market_value''
           = Some (PyDecimal (\<Sum>r\<leftarrow>assets (working c). shares r * cost_basis r * (11 / 10)))
       \<and> map_of (fst (get_portfolio_summary None c)) ''total_gain_loss''
           = Some (PyDecimal ((\<Sum>r\<leftarrow>assets (working c). shares r * cost_basis r * (11 / 10))
                              - (\<Sum>r\<leftarrow>assets (working c). cost_basis r)))"
proof -
  let ?rows = "select_summary_rows (working c)"
  let ?tcb = "\<Sum>r\<leftarrow>assets (working c). cost_basis r"
  let ?tmv = "\<Sum>r\<leftarrow>assets (working c). shares r * cost_basis r * (11 / 10)"
  from assms(1) have ne: "?rows \<noteq> []" by (simp add: select_summary_rows_def)
  from assms(4) have
    rows: "list_all (row_unrounded (11 / 10)) ?rows"
    and s1: "sum_unrounded (col_cost_basis ?rows)"
    and s2: "sum_unrounded (map (exact_value (11 / 10)) ?rows)"
    and s3: "sum_unrounded (map (exact_gain (11 / 10)) ?rows)"
    unfolding within_precision_def by blast+
  have cv: "col_current_value ?rows = map (exact_value (11 / 10)) ?rows"
    unfolding col_current_value_def col_current_price_def by (rule current_value_exact [OF rows])
  have gl: "col_gain_loss ?rows = map (exact_gain (11 / 10)) ?rows"
    unfolding col_gain_loss_def cv by (rule gain_loss_exact [OF rows])
  have tcb: "series_sum (col_cost_basis ?rows) = ?tcb"
    unfolding series_sum_exact [OF s1] by (rule sum_list_col_cost_basis)
  have tmv: "series_sum (col_current_value ?rows) = ?tmv"
    unfolding cv series_sum_exact [OF s2] by (rule sum_list_exact_value)
  have tgl: "series_sum (col_gain_loss ?rows) = ?tmv - ?tcb"
    unfolding gl series_sum_exact [OF s3] sum_list_exact_gain sum_list_exact_value
      sum_list_col_cost_basis by (rule refl)
  have "fst (get_portfolio_summary None c) =
          [(''total_assets_count'', PyInt (int (length ?rows))),
           (''total_cost_basis'', PyDecimal (series_sum (col_cost_basis ?rows))),
           (''total_market_value'', PyDecimal (series_sum (col_current_value ?rows))),
           (''total_gain_loss'', PyDecimal (series_sum (col_gain_loss ?rows))),
           (''avg_cost_basis'', PyFloat (series_mean (col_cost_basis ?rows)))]"
    using assms(2,3) ne by (simp add: get_portfolio_summary_def execute_query_def)
  then show ?thesis unfolding tcb tmv tgl by simp
qed

theorem summary_totals_witness:
  "assets (working (connect two_assets)) \<noteq> [] \<and> \<not> aborted (connect two_assets)
   \<and> \<not> closed (connect two_assets)
   \<and> within_precision (select_summary_rows (working (connect two_assets)))
   \<and> map_of (fst (get_portfolio_summary None (connect two_assets))) ''total_cost_basis''
       = Some (PyDecimal 2000)
   \<and> map_of (fst (get_portfolio_summary None (connect two_assets))) ''total_market_value''
       = Some (PyDecimal 16775)
   \<and> map_of (fst (get_portfolio_summary None (connect two_assets))) ''total_gain_loss''
       = Some (PyDecimal (16775 - 2000))"
proof -
  have some: "assets (working (connect two_assets)) \<noteq> []"
    by (simp add: connect_def two_assets_def)
  have usable: "\<not> aborted (connect two_assets)"
    by (simp add: connect_def)
  have opened: "\<not> closed (connect two_assets)"
    by (simp add: connect_def)
  have fits: "within_precision (select_summary_rows (working (connect two_assets)))"
    by code_simp
  have tcb: "(\<Sum>r\<leftarrow>assets (working (connect two_assets)). cost_basis r) = 2000"
    by (simp add: example_defs)
  have tmv: "(\<Sum>r\<leftarrow>assets (working (connect two_assets)). shares r * cost_basis r * (11 / 10))
      = 16775"
    by (simp add: example_defs)
  from summary_totals [OF some usable opened fits] show ?thesis
    unfolding tcb tmv using some usable opened fits by blast
qed

text \<open>
  The hypothesis of the amended claim holds for every portfolio of ordinary size: up to
  900 holdings, each of fewer than \<open>10\<^sup>8\<close> shares with at most four decimal places and a
  cost basis below \<open>10\<^sup>1\<^sup>0\<close> with at most two. Every number of the summary is then a
  multiple of \<open>10\<^sup>-\<^sup>7\<close> below \<open>10\<^sup>2\<^sup>1\<close>.
\<close>

lemma partial_sums_scaled:
  assumes "\<And>j. j \<le> length ms \<Longrightarrow> \<bar>a + sum_list (take j ms)\<bar> < 10 ^ 28" and "- 1000026 \<le> e"
  shows "partial_sums_unrounded (of_int a * 10 powi e) (map (\<lambda>m. of_int m * 10 powi e) ms)"
  using assms(1)
proof (induction ms arbitrary: a)
  case Nil
  then show ?case by simp
next
  case (Cons m ms)
  have "\<bar>a + sum_list (take 1 (m # ms))\<bar> < 10 ^ 28" by (rule Cons.prems) simp
  then have am: "\<bar>a + m\<bar> < 10 ^ 28" by simp
  have eq: "of_int a * 10 powi e + of_int m * 10 powi e = (of_int (a + m) :: rat) * 10 powi e"
    by (simp add: distrib_right)
  have "unrounded (of_int (a + m) * 10 powi e)"
    using am assms(2) by (rule unrounded_28_digits)
  moreover have "partial_sums_unrounded (of_int (a + m) * 10 powi e) (map (\<lambda>m. of_int m * 10 powi e) ms)"
  proof (rule Cons.IH)
    fix j assume "j \<le> length ms"
    then have "\<bar>a + sum_list (take (Suc j) (m # ms))\<bar> < 10 ^ 28" by (intro Cons.prems) simp
    then show "\<bar>a + m + sum_list (take j ms)\<bar> < 10 ^ 28" by (simp add: add.assoc)
  qed
  ultimately show ?case by (simp add: eq)
qed


lemma sum_list_take_bounds:
  assumes "\<And>m. m \<in> set ms \<Longrightarrow> \<bar>m\<bar> \<le> (B::int)"
  shows "\<bar>sum_list (take j ms)\<bar> \<le> int (length ms) * B"
  using assms
proof (induction ms arbitrary: j)
  case Nil
  then show ?case by simp
next
  case (Cons m ms)
  have m: "\<bar>m\<bar> \<le> B" using Cons.prems [of m] by simp
  then have B: "0 \<le> B" by simp
  have IH: "\<bar>sum_list (take i ms)\<bar> \<le> int (length ms) * B" for i
    using Cons.prems by (intro Cons.IH) simp
  show ?case
  proof (cases j)
    case 0
    have "0 \<le> int (length ms) * B" using B by simp
    with 0 B show ?thesis by (simp add: distrib_right)
  next
    case (Suc i)
    have "\<bar>m + sum_list (take i ms)\<bar> \<le> \<bar>m\<bar> + \<bar>sum_list (take i ms)\<bar>" by (rule abs_triangle_ineq)
    with Suc m IH [of i] show ?thesis by (simp add: distrib_right)
  qed
qed

lemma sum_unrounded_scaled:
  assumes bound: "\<And>m. m \<in> set ms \<Longrightarrow> \<bar>m\<bar> \<le> B"
    and total: "int (length ms) * B < 10 ^ 28" and e: "- 1000026 \<le> e"
  shows "sum_unrounded (map (\<lambda>m. of_int m * 10 powi e) ms)"
proof (cases ms)
  case Nil
  then show ?thesis by (simp add: sum_unrounded_def)
next
  case (Cons a as)
  have "partial_sums_unrounded (of_int a * 10 powi e) (map (\<lambda>m. of_int m * 10 powi e) as)"
  proof (rule partial_sums_scaled [OF _ e])
    fix j assume "j \<le> length as"
    have "a + sum_list (take j as) = sum_list (take (Suc j) ms)" using Cons by simp
    moreover have "\<bar>sum_list (take (Suc j) ms)\<bar> \<le> int (length ms) * B"
      using bound by (rule sum_list_take_bounds)
    ultimately show "\<bar>a + sum_list (take j as)\<bar> < 10 ^ 28" using total by simp
  qed
  with Cons show ?thesis by (simp add: sum_unrounded_def)
qed

lemma moderate_row:
  assumes "moderate_amounts r"
  shows "0 \<le> shares_e4 r" "shares_e4 r < 10 ^ 12" "0 \<le> cost_e2 r" "cost_e2 r < 10 ^ 12"
    and "(\<lambda>(t, s, c, a). c) r = of_int (cost_e2 r) * 10 powi (- 2)"
    and "(\<lambda>(t, s, c, a). c * k) r = of_int (cost_e2 r) * 10 powi (- 2) * k"
    and "exact_value (11 / 10) r = of_int (11 * shares_e4 r * cost_e2 r) * 10 powi (- 7)"
    and "exact_gain (11 / 10) r
           = of_int (11 * shares_e4 r * cost_e2 r - 100000 * cost_e2 r) * 10 powi (- 7)"
proof -
  obtain t s c a where r: "r = (t, s, c, a)" by (cases r)
  from assms r have s: "0 \<le> s" "s < 10 ^ 8" "s * 10 ^ 4 \<in> \<int>"
    and c: "0 \<le> c" "c < 10 ^ 10" "c * 10 ^ 2 \<in> \<int>"
    by (simp_all add: moderate_amounts_def)
  define ms where "ms = shares_e4 r"
  define mc where "mc = cost_e2 r"
  have "of_int \<lfloor>s * 10 ^ 4\<rfloor> = s * 10 ^ 4" using s(3) by (rule of_int_floor)
  moreover have "ms = \<lfloor>s * 10 ^ 4\<rfloor>" by (simp add: ms_def r shares_e4_def)
  ultimately have "of_int ms = s * 10 ^ 4" by (simp only:)
  then have "s = of_int ms / 10 ^ 4" by simp
  then have se: "s = of_int (shares_e4 r) / 10 ^ 4" by (simp only: ms_def)
  have "of_int \<lfloor>c * 10 ^ 2\<rfloor> = c * 10 ^ 2" using c(3) by (rule of_int_floor)
  moreover have "mc = \<lfloor>c * 10 ^ 2\<rfloor>" by (simp add: mc_def r cost_e2_def)
  ultimately have "of_int mc = c * 10 ^ 2" by (simp only:)
  then have "c = of_int mc / 10 ^ 2" by simp
  then have ce: "c = of_int (cost_e2 r) / 10 ^ 2" by (simp only: mc_def)
  show "0 \<le> shares_e4 r" using s(1) r by (simp add: shares_e4_def)
  show "0 \<le> cost_e2 r" using c(1) r by (simp add: cost_e2_def)
  have "s * 10 ^ 4 < 10 ^ 12" using s(2) by simp
  then show "shares_e4 r < 10 ^ 12" using r by (simp add: shares_e4_def floor_less_iff)
  have "c * 10 ^ 2 < 10 ^ 12" using c(2) by simp
  then show "cost_e2 r < 10 ^ 12" using r by (simp add: cost_e2_def floor_less_iff)
  show "(\<lambda>(t, s, c, a). c) r = of_int (cost_e2 r) * 10 powi (- 2)"
    using ce r by (simp add: power_int_minus field_simps)
  show "(\<lambda>(t, s, c, a). c * k) r = of_int (cost_e2 r) * 10 powi (- 2) * k"
    using ce r by (simp add: power_int_minus field_simps)
  show "exact_value (11 / 10) r = of_int (11 * shares_e4 r * cost_e2 r) * 10 powi (- 7)"
    using r by (simp add: exact_value_def power_int_minus) (simp add: se ce)
  show "exact_gain (11 / 10) r
           = of_int (11 * shares_e4 r * cost_e2 r - 100000 * cost_e2 r) * 10 powi (- 7)"
    using r by (simp add: exact_gain_def power_int_minus) (simp add: se ce field_simps)
qed


lemma moderate_product:
  assumes "moderate_amounts r"
  shows "0 \<le> shares_e4 r * cost_e2 r" and "shares_e4 r * cost_e2 r \<le> 10 ^ 24"
proof -
  note m = moderate_row(1-4) [OF assms]
  show "0 \<le> shares_e4 r * cost_e2 r" using m(1,3) by simp
  have "shares_e4 r * cost_e2 r \<le> 10 ^ 12 * 10 ^ 12"
    using m by (intro mult_mono) simp_all
  then show "shares_e4 r * cost_e2 r \<le> 10 ^ 24" by simp
qed

lemma moderate_row_unrounded:
  assumes "moderate_amounts r"
  shows "row_unrounded (11 / 10) r"
proof -
  note m = moderate_row [OF assms] and p = moderate_product [OF assms]
  obtain t s c a where r: "r = (t, s, c, a)" by (cases r)
  have "c * (11 / 10) = of_int (11 * cost_e2 r) * 10 powi (- 3)"
    using m(5) r by (simp add: power_int_minus)
  moreover have "unrounded (of_int (11 * cost_e2 r) * 10 powi (- 3))"
    using m(3,4) by (intro unrounded_28_digits) simp_all
  ultimately have 1: "unrounded (c * (11 / 10))" by (simp only:)
  have "unrounded (of_int (11 * shares_e4 r * cost_e2 r) * 10 powi (- 7))"
    using p by (intro unrounded_28_digits) simp_all
  then have 2: "unrounded (s * (c * (11 / 10)))"
    using m(7) r by (simp only: exact_value_def prod.case)
  have "unrounded (of_int (11 * shares_e4 r * cost_e2 r - 100000 * cost_e2 r) * 10 powi (- 7))"
    using p m(3,4) by (intro unrounded_28_digits) simp_all
  then have 3: "unrounded (s * (c * (11 / 10)) - c)"
    using m(8) r by (simp only: exact_gain_def prod.case)
  from 1 2 3 show ?thesis by (simp only: row_unrounded_def r prod.case simp_thms)
qed

lemma moderate_amounts_within_precision:
  assumes n: "length rows \<le> 900" and rows: "list_all moderate_amounts rows"
  shows "within_precision rows"
proof -
  have mod: "\<And>r. r \<in> set rows \<Longrightarrow> moderate_amounts r"
    using rows by (simp add: list_all_iff)
  have len: "\<And>f :: summary_row \<Rightarrow> int. int (length (map f rows)) \<le> 900" using n by simp
  have 1: "list_all (row_unrounded (11 / 10)) rows"
    using mod by (simp add: list_all_iff moderate_row_unrounded)
  have "col_cost_basis rows = map (\<lambda>m. of_int m * 10 powi (- 2)) (map cost_e2 rows)"
    unfolding col_cost_basis_def map_map by (rule map_cong) (simp_all add: moderate_row(5) mod)
  moreover have "sum_unrounded (map (\<lambda>m. of_int m * 10 powi (- 2)) (map cost_e2 rows))"
  proof (rule sum_unrounded_scaled [where B = "10 ^ 12"])
    fix m assume "m \<in> set (map cost_e2 rows)"
    then obtain r where r: "r \<in> set rows" and m: "m = cost_e2 r" by auto
    from moderate_row(3,4) [OF mod [OF r]] m show "\<bar>m\<bar> \<le> 10 ^ 12" by simp
  next
    show "int (length (map cost_e2 rows)) * 10 ^ 12 < 10 ^ 28" using len [of cost_e2] by simp
  qed simp
  ultimately have 2: "sum_unrounded (col_cost_basis rows)" by (simp only:)
  have "map (exact_value (11 / 10)) rows
          = map (\<lambda>m. of_int m * 10 powi (- 7)) (map (\<lambda>r. 11 * shares_e4 r * cost_e2 r) rows)"
    unfolding map_map by (rule map_cong) (simp_all add: moderate_row(7) mod)
  moreover have "sum_unrounded (map (\<lambda>m. of_int m * 10 powi (- 7))
                                  (map (\<lambda>r. 11 * shares_e4 r * cost_e2 r) rows))"
  proof (rule sum_unrounded_scaled [where B = "11 * 10 ^ 24"])
    fix m assume "m \<in> set (map (\<lambda>r. 11 * shares_e4 r * cost_e2 r) rows)"
    then obtain r where r: "r \<in> set rows" and m: "m = 11 * shares_e4 r * cost_e2 r" by auto
    from moderate_product [OF mod [OF r]] m show "\<bar>m\<bar> \<le> 11 * 10 ^ 24" by simp
  next
    show "int (length (map (\<lambda>r. 11 * shares_e4 r * cost_e2 r) rows)) * (11 * 10 ^ 24) < 10 ^ 28"
      using len [of "\<lambda>r. 11 * shares_e4 r * cost_e2 r"] by simp
  qed simp
  ultimately have 3: "sum_unrounded (map (exact_value (11 / 10)) rows)" by (simp only:)
  have "map (exact_gain (11 / 10)) rows
          = map (\<lambda>m. of_int m * 10 powi (- 7))
              (map (\<lambda>r. 11 * shares_e4 r * cost_e2 r - 100000 * cost_e2 r) rows)"
    unfolding map_map by (rule map_cong) (simp_all add: moderate_row(8) mod)
  moreover have "sum_unrounded (map (\<lambda>m. of_int m * 10 powi (- 7))
                   (map (\<lambda>r. 11 * shares_e4 r * cost_e2 r - 100000 * cost_e2 r) rows))"
  proof (rule sum_unrounded_scaled [where B = "11 * 10 ^ 24"])
    fix m assume "m \<in> set (map (\<lambda>r. 11 * shares_e4 r * cost_e2 r - 100000 * cost_e2 r) rows)"
    then obtain r where r: "r \<in> set rows"
      and m: "m = 11 * shares_e4 r * cost_e2 r - 100000 * cost_e2 r" by auto
    from moderate_product [OF mod [OF r]] moderate_row(3,4) [OF mod [OF r]] m
    show "\<bar>m\<bar> \<le> 11 * 10 ^ 24" by simp
  next
    show "int (length (map (\<lambda>r. 11 * shares_e4 r * cost_e2 r - 100000 * cost_e2 r) rows))
            * (11 * 10 ^ 24) < 10 ^ 28"
      using len [of "\<lambda>r. 11 * shares_e4 r * cost_e2 r - 100000 * cost_e2 r"] by simp
  qed simp
  ultimately have 4: "sum_unrounded (map (exact_gain (11 / 10)) rows)" by (simp only:)
  from 1 2 3 4 show ?thesis by (simp only: within_precision_def simp_thms)
qed

section \<open>The allocation by asset class\<close>

lemma sum_list_no_class:
  "a \<notin> set cs \<Longrightarrow> (\<Sum>cl\<leftarrow>cs. if a = cl then v else 0) = (0::rat)"
  by (induction cs) auto

lemma sum_list_one_class:
  "distinct cs \<Longrightarrow> a \<in> set cs \<Longrightarrow> (\<Sum>cl\<leftarrow>cs. if a = cl then v else 0) = (v::rat)"
  by (induction cs) (auto simp: sum_list_no_class)

text \<open>Summing class by class, over classes that cover the rows, is summing the rows.\<close>

lemma sum_list_by_class:
  fixes f :: "'a \<Rightarrow> rat"
  assumes "distinct cs" and "set (map g rs) \<subseteq> set cs"
  shows "(\<Sum>cl\<leftarrow>cs. sum_list (map f (filter (\<lambda>r. g r = cl) rs))) = sum_list (map f rs)"
  using assms(2)
proof (induction rs)
  case Nil
  then show ?case by simp
next
  case (Cons r rs)
  have "(\<Sum>cl\<leftarrow>cs. sum_list (map f (filter (\<lambda>x. g x = cl) (r # rs))))
        = (\<Sum>cl\<leftarrow>cs. (if g r = cl then f r else 0)
                        + sum_list (map f (filter (\<lambda>x. g x = cl) rs)))"
    by (rule arg_cong [where f = sum_list]) (rule map_cong, auto)
  also have "\<dots> = (\<Sum>cl\<leftarrow>cs. if g r = cl then f r else 0)
                   + (\<Sum>cl\<leftarrow>cs. sum_list (map f (filter (\<lambda>x. g x = cl) rs)))"
    by (simp add: sum_list_addf)
  also have "(\<Sum>cl\<leftarrow>cs. if g r = cl then f r else 0) = f r"
    using assms(1) Cons.prems by (intro sum_list_one_class) auto
  also have "(\<Sum>cl\<leftarrow>cs. sum_list (map f (filter (\<lambda>x. g x = cl) rs))) = sum_list (map f rs)"
    using Cons by simp
  finally show ?case by simp
qed

lemma select_allocation_sum:
  "sum_list (map snd (select_allocation d)) = (\<Sum>r\<leftarrow>assets d. cost_basis r)"
proof -
  have "sum_list (map snd (select_allocation d))
        = (\<Sum>cl\<leftarrow>remdups (map asset_class (assets d)).
             sum_list (map cost_basis (filter (\<lambda>r. asset_class r = cl) (assets d))))"
    by (simp add: select_allocation_def comp_def)
  also have "\<dots> = sum_list (map cost_basis (assets d))"
    by (rule sum_list_by_class) simp_all
  finally show ?thesis .
qed

lemma select_allocation_keys: "distinct (map fst (select_allocation d))"
  by (simp add: select_allocation_def comp_def)

lemma update_new_key: "k \<notin> fst ` set al \<Longrightarrow> AList.update k v al = al @ [(k, v)]"
  by (induction al) auto

lemma allocation_dict_append:
  "distinct (map fst xs) \<Longrightarrow> fst ` set acc \<inter> fst ` set xs = {} \<Longrightarrow>
   foldl (\<lambda>dict (k, v). AList.update k (float_of_Decimal v) dict) acc xs
     = acc @ map (\<lambda>(k, v). (k, float_of_Decimal v)) xs"
proof (induction xs arbitrary: acc)
  case Nil
  then show ?case by simp
next
  case (Cons x xs)
  obtain k v where x: "x = (k, v)" by (cases x)
  from Cons.prems x have "k \<notin> fst ` set acc" by auto
  then have u: "AList.update k (float_of_Decimal v) acc = acc @ [(k, float_of_Decimal v)]"
    by (rule update_new_key)
  from Cons.prems x have "fst ` set (acc @ [(k, float_of_Decimal v)]) \<inter> fst ` set xs = {}"
    by auto
  with Cons.IH [of "acc @ [(k, float_of_Decimal v)]"] Cons.prems(1) x u show ?case
    by simp
qed

text \<open>The groups have different classes, so the dictionary has one entry for each group.\<close>

lemma allocation_dict_distinct:
  "distinct (map fst xs) \<Longrightarrow> allocation_dict xs = map (\<lambda>(k, v). (k, float_of_Decimal v)) xs"
  using allocation_dict_append [of xs "[]"] by (simp add: allocation_dict_def)

lemma sum_values_representable:
  "list_all representable (map snd xs) \<Longrightarrow>
   sum_values (map (\<lambda>(k, v). (k, float_of_Decimal v)) xs) = Some (sum_list (map snd xs))"
  by (induction xs) (auto simp: representable_def)

lemma foldl_float_add_representable:
  "list_all representable (map snd xs) \<Longrightarrow> partial_sums_representable acc (map snd xs) \<Longrightarrow>
   foldl float_add (Float acc) (map snd (map (\<lambda>(k, v). (k, float_of_Decimal v)) xs))
     = Float (acc + sum_list (map snd xs))"
proof (induction xs arbitrary: acc)
  case Nil
  then show ?case by simp
next
  case (Cons x xs)
  obtain k v where x: "x = (k, v)" by (cases x)
  from Cons.prems x have here: "representable v" "representable (acc + v)"
    and rest: "list_all representable (map snd xs)"
      "partial_sums_representable (acc + v) (map snd xs)"
    by simp_all
  from here have v: "float_of_Decimal v = Float v"
    and s: "float_of_Decimal (acc + v) = Float (acc + v)"
    by (simp_all add: representable_def)
  from Cons.IH [OF rest] x v s show ?case by (simp add: add.assoc)
qed

lemma float_sum_values_representable:
  assumes "list_all representable (map snd xs)"
    and "partial_sums_representable 0 (map snd xs)"
  shows "float_sum_values (map (\<lambda>(k, v). (k, float_of_Decimal v)) xs)
           = Float (sum_list (map snd xs))"
  using foldl_float_add_representable [OF assms] by (simp add: float_sum_values_def)

lemma get_asset_allocation_values:
  assumes "\<not> aborted c" and "\<not> closed c"
  shows "fst (get_asset_allocation None c)
           = map (\<lambda>(cl, s). (cl, float_of_Decimal s)) (select_allocation (working c))"
proof -
  have "fst (get_asset_allocation None c) = allocation_dict (select_allocation (working c))"
    using assms by (simp add: get_asset_allocation_def execute_query_def)
  also have "\<dots> = map (\<lambda>(k, v). (k, float_of_Decimal v)) (select_allocation (working c))"
    by (rule allocation_dict_distinct) (rule select_allocation_keys)
  finally show ?thesis .
qed

text \<open>
  Claim C8, as stated, fails when a class sum is not a binary64 number. With a holding of
  0.10 in one class and one of 0.20 in another the mapping holds the floats nearest to 0.1
  and 0.2; their sum is not the total cost basis 0.3, and added as floats they give
  0.30000000000000004, which is not the float of the total either.
\<close>

theorem allocation_rounding_counterexample:
  "fst (get_asset_allocation None (connect small_change))
     = [(''Equities'', Float (3602879701896397 / 36028797018963968)),
        (''Crypto'', Float (3602879701896397 / 18014398509481984))]
   \<and> (\<Sum>r\<leftarrow>assets (working (connect small_change)). cost_basis r) = 3 / 10
   \<and> sum_values (fst (get_asset_allocation None (connect small_change)))
        \<noteq> Some (\<Sum>r\<leftarrow>assets (working (connect small_change)). cost_basis r)
   \<and> float_sum_values (fst (get_asset_allocation None (connect small_change)))
        = Float (1351079888211149 / 4503599627370496)
   \<and> float_of_Decimal (\<Sum>r\<leftarrow>assets (working (connect small_change)). cost_basis r)
        = Float (5404319552844595 / 18014398509481984)
   \<and> Float (1351079888211149 / 4503599627370496) \<noteq> Float (5404319552844595 / 18014398509481984)
   \<and> Float (1351079888211149 / 4503599627370496) \<noteq> Float (3 / 10)"
  by code_simp

text \<open>
  Float addition rounds as well: with class sums \<open>2\<^sup>5\<^sup>3\<close>, 1 and 1, which are binary64
  numbers and whose total \<open>2\<^sup>5\<^sup>3 + 2\<close> is one too, the values of the mapping are the class
  sums and add up to the total in exact arithmetic, but added as floats from left to
  right they give \<open>2\<^sup>5\<^sup>3\<close>: the running sum \<open>2\<^sup>5\<^sup>3 + 1\<close> is not a binary64 number.
\<close>

lemma float_sum_absorbs_small_amounts:
  "fst (get_asset_allocation None (connect fund_and_coins))
     = [(''Funds'', Float 9007199254740992), (''Cash'', Float 1), (''Crypto'', Float 1)]
   \<and> list_all representable (map snd (select_allocation fund_and_coins))
   \<and> \<not> partial_sums_representable 0 (map snd (select_allocation fund_and_coins))
   \<and> sum_values (fst (get_asset_allocation None (connect fund_and_coins)))
        = Some 9007199254740994
   \<and> float_sum_values (fst (get_asset_allocation None (connect fund_and_coins)))
        = Float 9007199254740992"
  by code_simp

text \<open>
  Claim C8, amended. In every state of the \<^verbatim>\<open>assets\<close> table, on a connection that works,
  the values of the mapping returned by \<^verbatim>\<open>get_asset_allocation\<close> are the sums of
  \<open>cost_basis\<close> by class, each converted to a float, and the sums by class add up to the sum
  of \<open>cost_basis\<close> over all rows. When every sum by class is a binary64 number, the values
  of the mapping add up to the total cost basis in exact arithmetic. When moreover every
  running sum of the sums by class, from left to right, is a binary64 number, the values
  added as floats from left to right give the total cost basis as well.
\<close>

theorem allocation_sums_to_total:
  assumes "\<not> aborted c" and "\<not> closed c"
  shows "fst (get_asset_allocation None c)
           = map (\<lambda>(cl, s). (cl, float_of_Decimal s)) (select_allocation (working c))
       \<and> sum_list (map snd (select_allocation (working c)))
           = (\<Sum>r\<leftarrow>assets (working c). cost_basis r)
       \<and> (list_all representable (map snd (select_allocation (working c)))
            \<longrightarrow> sum_values (fst (get_asset_allocation None c))
                  = Some (\<Sum>r\<leftarrow>assets (working c). cost_basis r))
       \<and> (list_all representable (map snd (select_allocation (working c)))
          \<and> partial_sums_representable 0 (map snd (select_allocation (working c)))
            \<longrightarrow> float_sum_values (fst (get_asset_allocation None c))
                  = Float (\<Sum>r\<leftarrow>assets (working c). cost_basis r))"
  unfolding get_asset_allocation_values [OF assms]
  by (simp add: select_allocation_sum sum_values_representable
      float_sum_values_representable)

theorem allocation_sums_to_total_witness:
  "\<not> aborted (connect two_assets) \<and> \<not> closed (connect two_assets)
   \<and> list_all representable (map snd (select_allocation (working (connect two_assets))))
   \<and> partial_sums_representable 0 (map snd (select_allocation (working (connect two_assets))))
   \<and> fst (get_asset_allocation None (connect two_assets))
       = [(''Equities'', Float 1500), (''Crypto'', Float 500)]
   \<and> sum_list (map snd (select_allocation (working (connect two_assets)))) = 2000
   \<and> sum_values (fst (get_asset_allocation None (connect two_assets))) = Some 2000
   \<and> float_sum_values (fst (get_asset_allocation None (connect two_assets))) = Float 2000"
proof -
  have usable: "\<not> aborted (connect two_assets)"
    by (simp add: connect_def)
  have opened: "\<not> closed (connect two_assets)"
    by (simp add: connect_def)
  have floats: "list_all representable
      (map snd (select_allocation (working (connect two_assets))))"
    by code_simp
  have running: "partial_sums_representable 0
      (map snd (select_allocation (working (connect two_assets))))"
    by code_simp
  have mapping: "fst (get_asset_allocation None (connect two_assets))
      = [(''Equities'', Float 1500), (''Crypto'', Float 500)]"
    by code_simp
  have total: "(\<Sum>r\<leftarrow>assets (working (connect two_assets)). cost_basis r) = 2000"
    by (simp add: example_defs)
  from allocation_sums_to_total [OF usable opened] show ?thesis
    unfolding total using usable opened floats running mapping by blast
qed

text \<open>
  Both conditions of the amended claim hold when every cost basis is a whole amount and
  the total is below \<open>2\<^sup>5\<^sup>3\<close>: every sum by class and every running sum is then an integer
  below \<open>2\<^sup>5\<^sup>3\<close>.
\<close>

lemma sum_list_Ints: "(\<And>x. x \<in> set xs \<Longrightarrow> x \<in> \<int>) \<Longrightarrow> sum_list xs \<in> (\<int> :: rat set)"
  by (induction xs) auto

lemma sum_list_filter_bounds:
  fixes f :: "'a \<Rightarrow> rat"
  assumes "\<And>x. x \<in> set xs \<Longrightarrow> 0 \<le> f x"
  shows "0 \<le> sum_list (map f (filter P xs)) \<and> sum_list (map f (filter P xs)) \<le> sum_list (map f xs)"
  using assms
proof (induction xs)
  case Nil
  then show ?case by simp
next
  case (Cons x xs)
  have "0 \<le> f x" using Cons.prems by simp
  moreover have "0 \<le> sum_list (map f (filter P xs)) \<and> sum_list (map f (filter P xs)) \<le> sum_list (map f xs)"
    using Cons.prems by (intro Cons.IH) simp
  ultimately show ?case by simp
qed

lemma whole_amounts_representable:
  assumes whole: "\<And>r. r \<in> set (assets d) \<Longrightarrow> cost_basis r \<in> \<int> \<and> 0 \<le> cost_basis r"
    and total: "(\<Sum>r\<leftarrow>assets d. cost_basis r) < 2 ^ 53"
  shows "list_all representable (map snd (select_allocation d))"
proof -
  have "representable (sum_list (map cost_basis (filter (\<lambda>r. asset_class r = cl) (assets d))))" for cl
  proof -
    let ?s = "sum_list (map cost_basis (filter (\<lambda>r. asset_class r = cl) (assets d)))"
    have "?s \<in> \<int>" using whole by (intro sum_list_Ints) auto
    then obtain m where m: "?s = of_int m" by (auto elim: Ints_cases)
    have "0 \<le> ?s \<and> ?s \<le> (\<Sum>r\<leftarrow>assets d. cost_basis r)"
      using whole by (intro sum_list_filter_bounds) simp
    with total m have "0 \<le> (of_int m :: rat)" "(of_int m :: rat) < of_int (2 ^ 53)" by simp_all
    then have "0 \<le> m" "m < 2 ^ 53" by (simp_all only: of_int_less_iff of_int_0_le_iff)
    then have "\<bar>m\<bar> < 2 ^ 53" by simp
    then have "representable (of_int m * 2 powi 0)" by (intro representable_53_bits) simp_all
    with m show ?thesis by simp
  qed
  then show ?thesis by (simp add: select_allocation_def list_all_iff)
qed

lemma whole_running_sums_representable:
  fixes xs :: "rat list"
  assumes "\<And>x. x \<in> set xs \<Longrightarrow> x \<in> \<int> \<and> 0 \<le> x" and "acc \<in> \<int>" and "0 \<le> acc"
    and "acc + sum_list xs < 2 ^ 53"
  shows "partial_sums_representable acc xs"
  using assms
proof (induction xs arbitrary: acc)
  case Nil
  then show ?case by simp
next
  case (Cons x xs)
  from Cons.prems(1) have x: "x \<in> \<int>" "0 \<le> x" by simp_all
  have rest: "0 \<le> sum_list xs"
    using Cons.prems(1) by (intro sum_list_nonneg) simp
  from x Cons.prems(2) have "acc + x \<in> \<int>" by simp
  then obtain m where m: "acc + x = of_int m" by (auto elim: Ints_cases)
  from x Cons.prems(3) have nonneg: "0 \<le> acc + x" by simp
  from rest Cons.prems(4) have below: "acc + x < 2 ^ 53" by simp
  from nonneg below m have "0 \<le> (of_int m :: rat)" "(of_int m :: rat) < of_int (2 ^ 53)"
    by simp_all
  then have "0 \<le> m" "m < 2 ^ 53" by (simp_all only: of_int_less_iff of_int_0_le_iff)
  then have "\<bar>m\<bar> < 2 ^ 53" by simp
  then have "representable (of_int m * 2 powi 0)" by (intro representable_53_bits) simp_all
  with m have here: "representable (acc + x)" by simp
  have "partial_sums_representable (acc + x) xs"
    using Cons.prems(1,4) \<open>acc + x \<in> \<int>\<close> nonneg by (intro Cons.IH) (simp_all add: add.assoc)
  with here show ?case by simp
qed

lemma whole_amounts_running_sums:
  assumes whole: "\<And>r. r \<in> set (assets d) \<Longrightarrow> cost_basis r \<in> \<int> \<and> 0 \<le> cost_basis r"
    and total: "(\<Sum>r\<leftarrow>assets d. cost_basis r) < 2 ^ 53"
  shows "partial_sums_representable 0 (map snd (select_allocation d))"
proof (rule whole_running_sums_representable)
  fix x assume "x \<in> set (map snd (select_allocation d))"
  then obtain cl where
    x: "x = sum_list (map cost_basis (filter (\<lambda>r. asset_class r = cl) (assets d)))"
    by (auto simp: select_allocation_def)
  have "x \<in> \<int>" unfolding x using whole by (intro sum_list_Ints) auto
  moreover have "0 \<le> x" unfolding x using whole by (intro sum_list_nonneg) auto
  ultimately show "x \<in> \<int> \<and> 0 \<le> x" by simp
next
  show "(0::rat) + sum_list (map snd (select_allocation d)) < 2 ^ 53"
    using total by (simp add: select_allocation_sum)
qed simp_all

end
